theory Spec2Isabelle
  imports Main "HOL-Library.Word" "HOL-Library.Multiset"
begin

section \<open>Data model\<close>

text \<open>
  The kinds of expression node (\<^verbatim>\<open>opteryx.managers.expression.NodeType\<close>) and the
  type tags of \<^verbatim>\<open>orso.types.OrsoTypes\<close> that the modelled code mentions.
\<close>

datatype NodeType =
  IDENTIFIER | LITERAL | WILDCARD | FUNCTION | AGGREGATOR | BINARY_OPERATOR
  | COMPARISON_OPERATOR | AND | OR | XOR | EXPRESSION_LIST | SUBQUERY | EVALUATED

datatype OrsoTypes = BOOLEAN | TIMESTAMP | INTERVAL | VARCHAR | INTEGER | DOUBLE | MISSING_TYPE

text \<open>
  The exceptions the modelled functions raise: the engine's own, and the ones the
  Python operations of the code raise on an operand they do not accept.
\<close>

datatype error =
  AmbiguousIdentifierError "string option"
  | ColumnNotFoundError
  | FunctionNotFoundError
  | InvalidInternalStateError
  | UnexpectedDatasetReferenceError
  | DataError string
  | TypeError
  | IndexError
  | KeyError
  | AttributeError
  | OverflowError
  | ValueError

text \<open>
  An expression node. Python's \<^verbatim>\<open>Node\<close> answers \<^verbatim>\<open>None\<close> for an attribute that
  was never set, so every attribute is optional; \<^verbatim>\<open>parameters\<close> is the empty list when
  absent (the code only tests its truthiness). The payload \<^verbatim>\<open>value\<close> is dynamically
  typed: a scalar, a list, or (for an expression list) the member nodes. The type
  parameter \<open>'c\<close> is what \<^verbatim>\<open>schema_column\<close> refers to.
\<close>

datatype 'c node = Node
  (node_type: NodeType)
  (value_n: "'c pyval")
  (left: "'c node option")
  (right: "'c node option")
  (centre: "'c node option")
  (parameters: "'c node list")
  (type_n: "OrsoTypes option")
  (sub_type: "OrsoTypes option")
  (alias_n: "string option")
  (source: "string option")
  (source_column: "string option")
  (current_name: "string option")
  (query_column: "string option")
  (schema_column: "'c option")
  (identity: "string option")
  (do_not_create_column: bool)
  (source_connector: "string list option")
  (function_n: "string option")
  (derived_from: "string list option")
and 'c pyval =
  PNone | PBool bool | PInt int | PStr string | PList "'c pyval list" | PNodes "'c node list"

text \<open>\<^verbatim>\<open>Node(node_type=t)\<close>: a node with no other attribute set.\<close>

definition new_node :: "NodeType \<Rightarrow> 'c node" where
  "new_node t =
     Node t PNone None None None [] None None None None None None None None None False None None None"

text \<open>Attribute assignment, one function per attribute the code assigns.\<close>

fun set_node_type :: "NodeType \<Rightarrow> 'c node \<Rightarrow> 'c node" where
  "set_node_type x (Node nt v l r c ps ty st al so sc cn qc sch ide dn con fn df) =
     Node x v l r c ps ty st al so sc cn qc sch ide dn con fn df"

fun set_value :: "'c pyval \<Rightarrow> 'c node \<Rightarrow> 'c node" where
  "set_value x (Node nt v l r c ps ty st al so sc cn qc sch ide dn con fn df) =
     Node nt x l r c ps ty st al so sc cn qc sch ide dn con fn df"

fun set_left :: "'c node option \<Rightarrow> 'c node \<Rightarrow> 'c node" where
  "set_left x (Node nt v l r c ps ty st al so sc cn qc sch ide dn con fn df) =
     Node nt v x r c ps ty st al so sc cn qc sch ide dn con fn df"

fun set_right :: "'c node option \<Rightarrow> 'c node \<Rightarrow> 'c node" where
  "set_right x (Node nt v l r c ps ty st al so sc cn qc sch ide dn con fn df) =
     Node nt v l x c ps ty st al so sc cn qc sch ide dn con fn df"

fun set_centre :: "'c node option \<Rightarrow> 'c node \<Rightarrow> 'c node" where
  "set_centre x (Node nt v l r c ps ty st al so sc cn qc sch ide dn con fn df) =
     Node nt v l r x ps ty st al so sc cn qc sch ide dn con fn df"

fun set_parameters :: "'c node list \<Rightarrow> 'c node \<Rightarrow> 'c node" where
  "set_parameters x (Node nt v l r c ps ty st al so sc cn qc sch ide dn con fn df) =
     Node nt v l r c x ty st al so sc cn qc sch ide dn con fn df"

fun set_type :: "OrsoTypes option \<Rightarrow> 'c node \<Rightarrow> 'c node" where
  "set_type x (Node nt v l r c ps ty st al so sc cn qc sch ide dn con fn df) =
     Node nt v l r c ps x st al so sc cn qc sch ide dn con fn df"

fun set_sub_type :: "OrsoTypes option \<Rightarrow> 'c node \<Rightarrow> 'c node" where
  "set_sub_type x (Node nt v l r c ps ty st al so sc cn qc sch ide dn con fn df) =
     Node nt v l r c ps ty x al so sc cn qc sch ide dn con fn df"

fun set_source :: "string option \<Rightarrow> 'c node \<Rightarrow> 'c node" where
  "set_source x (Node nt v l r c ps ty st al so sc cn qc sch ide dn con fn df) =
     Node nt v l r c ps ty st al x sc cn qc sch ide dn con fn df"

fun set_query_column :: "string option \<Rightarrow> 'c node \<Rightarrow> 'c node" where
  "set_query_column x (Node nt v l r c ps ty st al so sc cn qc sch ide dn con fn df) =
     Node nt v l r c ps ty st al so sc cn x sch ide dn con fn df"

fun set_schema_column :: "'c option \<Rightarrow> 'c node \<Rightarrow> 'c node" where
  "set_schema_column x (Node nt v l r c ps ty st al so sc cn qc sch ide dn con fn df) =
     Node nt v l r c ps ty st al so sc cn qc x ide dn con fn df"

fun set_function :: "string option \<Rightarrow> 'c node \<Rightarrow> 'c node" where
  "set_function x (Node nt v l r c ps ty st al so sc cn qc sch ide dn con fn df) =
     Node nt v l r c ps ty st al so sc cn qc sch ide dn con x df"

fun set_derived_from :: "string list option \<Rightarrow> 'c node \<Rightarrow> 'c node" where
  "set_derived_from x (Node nt v l r c ps ty st al so sc cn qc sch ide dn con fn df) =
     Node nt v l r c ps ty st al so sc cn qc sch ide dn con fn x"


section \<open>Python operations on dynamically typed values\<close>

text \<open>Sequencing of computations that may raise.\<close>

definition err_bind :: "error + 'a \<Rightarrow> ('a \<Rightarrow> error + 'b) \<Rightarrow> error + 'b" where
  "err_bind m f = (case m of Inl e \<Rightarrow> Inl e | Inr x \<Rightarrow> f x)"

text \<open>\<^verbatim>\<open>needle in s\<close> for two strings: \<open>needle\<close> occurs in \<open>s\<close> as a substring.\<close>

fun str_contains :: "string \<Rightarrow> string \<Rightarrow> bool" where
  "str_contains needle [] = (needle = [])"
| "str_contains needle (c # cs) =
     (take (length needle) (c # cs) = needle \<or> str_contains needle cs)"

text \<open>
  \<^verbatim>\<open>x in {..strings..}\<close>: set membership hashes \<open>x\<close>, and a list is unhashable.
\<close>

definition value_in :: "'c pyval \<Rightarrow> string list \<Rightarrow> error + bool" where
  "value_in v names =
     (case v of PList xs \<Rightarrow> Inl TypeError
      | PStr s \<Rightarrow> Inr (s \<in> set names)
      | _ \<Rightarrow> Inr False)"

text \<open>\<^verbatim>\<open>needle in v\<close> for a string \<open>needle\<close>: substring of a string, member of a list or tuple.\<close>

definition py_contains :: "string \<Rightarrow> 'c pyval \<Rightarrow> error + bool" where
  "py_contains needle v =
     (case v of PStr s \<Rightarrow> Inr (str_contains needle s)
      | PList xs \<Rightarrow> Inr (PStr needle \<in> set xs)
      | PNodes ns \<Rightarrow> Inr False
      | _ \<Rightarrow> Inl TypeError)"

text \<open>\<^verbatim>\<open>v[-1] == "%"\<close> and \<^verbatim>\<open>v[0] == "%"\<close>.\<close>

definition last_is_percent :: "'c pyval \<Rightarrow> error + bool" where
  "last_is_percent v =
     (case v of PStr s \<Rightarrow> (if s = [] then Inl IndexError else Inr (last s = CHR ''%''))
      | PList xs \<Rightarrow> (if xs = [] then Inl IndexError else Inr (last xs = PStr ''%''))
      | PNodes ns \<Rightarrow> (if ns = [] then Inl IndexError else Inr False)
      | _ \<Rightarrow> Inl TypeError)"

definition first_is_percent :: "'c pyval \<Rightarrow> error + bool" where
  "first_is_percent v =
     (case v of PStr s \<Rightarrow> (if s = [] then Inl IndexError else Inr (hd s = CHR ''%''))
      | PList xs \<Rightarrow> (if xs = [] then Inl IndexError else Inr (hd xs = PStr ''%''))
      | PNodes ns \<Rightarrow> (if ns = [] then Inl IndexError else Inr False)
      | _ \<Rightarrow> Inl TypeError)"

text \<open>\<^verbatim>\<open>v.count("%")\<close>.\<close>

definition count_percent :: "'c pyval \<Rightarrow> error + nat" where
  "count_percent v =
     (case v of PStr s \<Rightarrow> Inr (count_list s (CHR ''%''))
      | PList xs \<Rightarrow> Inr (count_list xs (PStr ''%''))
      | PNodes ns \<Rightarrow> Inr 0
      | _ \<Rightarrow> Inl AttributeError)"

text \<open>The slices \<^verbatim>\<open>v[:-1]\<close>, \<^verbatim>\<open>v[1:]\<close> and \<^verbatim>\<open>v[1:-1]\<close>.\<close>

definition slice_drop_last :: "'c pyval \<Rightarrow> error + 'c pyval" where
  "slice_drop_last v =
     (case v of PStr s \<Rightarrow> Inr (PStr (butlast s))
      | PList xs \<Rightarrow> Inr (PList (butlast xs))
      | PNodes ns \<Rightarrow> Inr (PNodes (butlast ns))
      | _ \<Rightarrow> Inl TypeError)"

definition slice_drop_first :: "'c pyval \<Rightarrow> error + 'c pyval" where
  "slice_drop_first v =
     (case v of PStr s \<Rightarrow> Inr (PStr (tl s))
      | PList xs \<Rightarrow> Inr (PList (tl xs))
      | PNodes ns \<Rightarrow> Inr (PNodes (tl ns))
      | _ \<Rightarrow> Inl TypeError)"

definition slice_inner :: "'c pyval \<Rightarrow> error + 'c pyval" where
  "slice_inner v =
     (case v of PStr s \<Rightarrow> Inr (PStr (butlast (tl s)))
      | PList xs \<Rightarrow> Inr (PList (butlast (tl xs)))
      | PNodes ns \<Rightarrow> Inr (PNodes (butlast (tl ns)))
      | _ \<Rightarrow> Inl TypeError)"

text \<open>\<^verbatim>\<open>len(v)\<close>.\<close>

definition py_len :: "'c pyval \<Rightarrow> error + nat" where
  "py_len v =
     (case v of PStr s \<Rightarrow> Inr (length s)
      | PList xs \<Rightarrow> Inr (length xs)
      | PNodes ns \<Rightarrow> Inr (length ns)
      | _ \<Rightarrow> Inl TypeError)"

text \<open>\<^verbatim>\<open>v.pop()\<close> on a list: its last element; strings and tuples have no \<^verbatim>\<open>pop\<close>.\<close>

definition py_pop :: "'c pyval \<Rightarrow> error + 'c pyval" where
  "py_pop v =
     (case v of PList xs \<Rightarrow> (if xs = [] then Inl IndexError else Inr (last xs))
      | _ \<Rightarrow> Inl AttributeError)"

text \<open>\<^verbatim>\<open>re.sub(r"%+", "%", s)\<close>: every run of \<open>%\<close> becomes one \<open>%\<close>.\<close>

fun collapse_wildcards :: "string \<Rightarrow> string" where
  "collapse_wildcards (a # b # cs) =
     (if a = CHR ''%'' \<and> b = CHR ''%'' then collapse_wildcards (b # cs)
      else a # collapse_wildcards (b # cs))"
| "collapse_wildcards cs = cs"

section \<open>Predicate rewriter\<close>

text \<open>
  \<^verbatim>\<open>planner/cost_based_optimizer/strategies/predicate_rewriter.py\<close>. The helpers
  \<^verbatim>\<open>format_expression\<close>, \<^verbatim>\<open>determine_type\<close>, the column constructor
  \<^verbatim>\<open>ExpressionColumn\<close>, the hash \<^verbatim>\<open>CityHash64\<close>, Python's \<^verbatim>\<open>str\<close> and the
  \<^verbatim>\<open>identity\<close> attribute of a column object are not part of the modelled sources;
  the functions take them as parameters, in one record. A rewrite mutates the
  predicate in place and returns it; the model returns the updated node. The result
  \<open>None\<close> is Python's \<^verbatim>\<open>None\<close>.
\<close>

record 'c externals =
  format_expression :: "'c node \<Rightarrow> string"
  determine_type :: "'c node option \<Rightarrow> error + OrsoTypes"
  ExpressionColumn :: "string \<Rightarrow> OrsoTypes \<Rightarrow> 'c"
  CityHash64 :: "string \<Rightarrow> 64 word"
  py_str :: "'c pyval \<Rightarrow> string"
  column_identity :: "'c \<Rightarrow> string"

definition IN_REWRITES :: "string \<rightharpoonup> string" where
  "IN_REWRITES = [''InList'' \<mapsto> ''Eq'', ''NotInList'' \<mapsto> ''NotEq'']"

definition LIKE_REWRITES :: "string \<rightharpoonup> string" where
  "LIKE_REWRITES = [''Like'' \<mapsto> ''Eq'', ''NotLike'' \<mapsto> ''NotEq'']"

text \<open>\<^verbatim>\<open>table[predicate.value]\<close> for one of the two tables above.\<close>

definition table_lookup :: "(string \<rightharpoonup> string) \<Rightarrow> 'c pyval \<Rightarrow> error + string" where
  "table_lookup table v =
     (case v of PList xs \<Rightarrow> Inl TypeError
      | PStr s \<Rightarrow> (case table s of None \<Rightarrow> Inl KeyError | Some t \<Rightarrow> Inr t)
      | _ \<Rightarrow> Inl KeyError)"

text \<open>\<^verbatim>\<open>predicate.right\<close>, where the code goes on to read an attribute of it.\<close>

definition right_of :: "'c node \<Rightarrow> error + 'c node" where
  "right_of predicate = (case right predicate of None \<Rightarrow> Inl AttributeError | Some r \<Rightarrow> Inr r)"

definition left_of :: "'c node \<Rightarrow> error + 'c node" where
  "left_of predicate = (case left predicate of None \<Rightarrow> Inl AttributeError | Some l \<Rightarrow> Inr l)"

definition remove_adjacent_wildcards :: "'c node \<Rightarrow> error + 'c node" where
  "remove_adjacent_wildcards predicate =
     err_bind (right_of predicate) (\<lambda>r.
     err_bind (py_contains ''%%'' (value_n r)) (\<lambda>found.
       if found then
         (case value_n r of
            PStr s \<Rightarrow> Inr (set_right (Some (set_value (PStr (collapse_wildcards s)) r)) predicate)
          | _ \<Rightarrow> Inl TypeError)
       else Inr predicate))"

text \<open>
  The three rewrites of a pattern match into a function call. The new parameter list
  holds the left operand, the right operand with its pattern cut, and a literal for
  \<^verbatim>\<open>ignore_case\<close>. (At the only call site the left operand is present.)
\<close>

definition like_to_function ::
  "string \<Rightarrow> ('c pyval \<Rightarrow> error + 'c pyval) \<Rightarrow> 'c node \<Rightarrow> error + 'c node" where
  "like_to_function fname cut_pattern predicate =
     (let ignore_case = (value_n predicate = PStr ''ILike'') in
      err_bind (right_of predicate) (\<lambda>r.
      err_bind (cut_pattern (value_n r)) (\<lambda>v.
      err_bind (left_of predicate) (\<lambda>l.
        let r' = set_value v r in
        Inr (set_parameters
               [l, r', set_value (PBool ignore_case) (set_type (Some BOOLEAN) (new_node LITERAL))]
               (set_value (PStr fname)
                 (set_node_type FUNCTION (set_right (Some r') predicate))))))))"

definition rewrite_to_starts_with :: "'c node \<Rightarrow> error + 'c node" where
  "rewrite_to_starts_with = like_to_function ''STARTS_WITH'' slice_drop_last"

definition rewrite_to_ends_with :: "'c node \<Rightarrow> error + 'c node" where
  "rewrite_to_ends_with = like_to_function ''ENDS_WITH'' slice_drop_first"

definition rewrite_to_search :: "'c node \<Rightarrow> error + 'c node" where
  "rewrite_to_search = like_to_function ''SEARCH'' slice_inner"

definition rewrite_in_to_eq :: "'c node \<Rightarrow> error + 'c node" where
  "rewrite_in_to_eq predicate =
     err_bind (table_lookup IN_REWRITES (value_n predicate)) (\<lambda>op.
     err_bind (right_of predicate) (\<lambda>r.
     err_bind (py_pop (value_n r)) (\<lambda>v.
       Inr (set_right
              (Some (set_sub_type None
                 (set_type (case sub_type r of None \<Rightarrow> Some VARCHAR | Some t \<Rightarrow> Some t)
                   (set_value v r))))
              (set_value (PStr op) predicate)))))"

text \<open>
  \<^verbatim>\<open>reorder_interval_calc\<close> returns the predicate when the left operator is
  \<^verbatim>\<open>Minus\<close>, and falls off its end (returning \<^verbatim>\<open>None\<close>) otherwise.
\<close>

definition reorder_interval_calc :: "'c externals \<Rightarrow> 'c node \<Rightarrow> error + 'c node option" where
  "reorder_interval_calc E predicate =
     err_bind (left_of predicate) (\<lambda>l.
       let date_start = right l; date_end = left l; interval = right predicate in
       if value_n l = PStr ''Minus'' then
         (let op0 = set_right interval (set_left date_start
                      (set_value (PStr ''Plus'') (new_node BINARY_OPERATOR)));
              new_binary_op =
                set_schema_column (Some (ExpressionColumn E (format_expression E op0) TIMESTAMP)) op0;
              p1 = set_left date_end (set_right (Some new_binary_op)
                     (set_node_type COMPARISON_OPERATOR predicate))
          in Inr (Some (set_schema_column
                          (Some (ExpressionColumn E (format_expression E p1) BOOLEAN)) p1)))
       else Inr None)"

text \<open>
  The rules of \<^verbatim>\<open>_rewrite_predicate\<close> after its two opening tests, in the order of
  the source. Each \<open>rule_\<close> is one \<^verbatim>\<open>if\<close> block; \<open>Inr (Inl p)\<close> is a \<^verbatim>\<open>return p\<close>
  from inside the block and \<open>Inr (Inr p)\<close> falls through to the next block.
\<close>

definition rule_adjacent_wildcards :: "'c node \<Rightarrow> error + 'c node" where
  "rule_adjacent_wildcards predicate =
     err_bind (value_in (value_n predicate) [''Like'', ''ILike'', ''NotLike'', ''NotILike'']) (\<lambda>m.
       if m then
         err_bind (right_of predicate) (\<lambda>r.
         err_bind (py_contains ''%%'' (value_n r)) (\<lambda>found.
           if found then remove_adjacent_wildcards predicate else Inr predicate))
       else Inr predicate)"

definition rule_like_to_eq :: "'c node \<Rightarrow> error + 'c node" where
  "rule_like_to_eq predicate =
     err_bind (value_in (value_n predicate) [''Like'', ''NotLike'']) (\<lambda>m.
       if m then
         err_bind (right_of predicate) (\<lambda>r.
         err_bind (py_contains ''%'' (value_n r)) (\<lambda>has_percent.
           if has_percent then Inr predicate
           else
             err_bind (py_contains ''_'' (value_n r)) (\<lambda>has_underscore.
               if has_underscore then Inr predicate
               else err_bind (table_lookup LIKE_REWRITES (value_n predicate)) (\<lambda>op.
                 Inr (set_value (PStr op) predicate)))))
       else Inr predicate)"

definition rule_like_to_function :: "'c node \<Rightarrow> error + ('c node + 'c node)" where
  "rule_like_to_function predicate =
     err_bind (value_in (value_n predicate) [''Like'', ''ILike'']) (\<lambda>m.
       if m then
         err_bind (left_of predicate) (\<lambda>l.
           case source_connector l of
             None \<Rightarrow> Inr (Inr predicate)
           | Some con \<Rightarrow>
               if con \<noteq> [] \<and> set con \<inter> {''Sql'', ''Cql''} = {} then
                 err_bind (right_of predicate) (\<lambda>r.
                   if node_type r = LITERAL then
                     err_bind (last_is_percent (value_n r)) (\<lambda>trailing.
                     err_bind (if trailing then count_percent (value_n r) else Inr 0) (\<lambda>n1.
                       if trailing \<and> n1 = 1 then
                         err_bind (rewrite_to_starts_with predicate) (\<lambda>p. Inr (Inl p))
                       else
                         err_bind (first_is_percent (value_n r)) (\<lambda>leading.
                         err_bind (if leading then count_percent (value_n r) else Inr 0) (\<lambda>n2.
                           if leading \<and> n2 = 1 then
                             err_bind (rewrite_to_ends_with predicate) (\<lambda>p. Inr (Inl p))
                           else
                             err_bind (first_is_percent (value_n r)) (\<lambda>leading'.
                             err_bind (if leading' then last_is_percent (value_n r) else Inr False)
                               (\<lambda>trailing'.
                             err_bind (if leading' \<and> trailing' then count_percent (value_n r)
                                       else Inr 0) (\<lambda>n3.
                               if leading' \<and> trailing' \<and> n3 = 2 then
                                 err_bind (rewrite_to_search predicate) (\<lambda>p. Inr (Inl p))
                               else Inr (Inr predicate))))))))
                   else Inr (Inr predicate))
               else Inr (Inr predicate))
       else Inr (Inr predicate))"

definition rule_any_op_eq :: "'c node \<Rightarrow> error + 'c node" where
  "rule_any_op_eq predicate =
     (if value_n predicate = PStr ''AnyOpEq'' then
        err_bind (right_of predicate) (\<lambda>r.
          if node_type r = LITERAL then Inr (set_value (PStr ''InList'') predicate)
          else Inr predicate)
      else Inr predicate)"

definition rule_in_to_eq :: "'c node \<Rightarrow> error + ('c node + 'c node)" where
  "rule_in_to_eq predicate =
     err_bind (value_in (value_n predicate) [''InList'', ''NotInList'']) (\<lambda>m.
       if m then
         err_bind (right_of predicate) (\<lambda>r.
           if node_type r = LITERAL then
             err_bind (py_len (value_n r)) (\<lambda>n.
               if n = 1 then err_bind (rewrite_in_to_eq predicate) (\<lambda>p. Inr (Inl p))
               else Inr (Inr predicate))
           else Inr (Inr predicate))
       else Inr (Inr predicate))"

definition rule_interval :: "'c externals \<Rightarrow> 'c node \<Rightarrow> error + 'c node option" where
  "rule_interval E predicate =
     (if node_type predicate = COMPARISON_OPERATOR then
        err_bind (left_of predicate) (\<lambda>l.
          if node_type l = BINARY_OPERATOR then
            err_bind (determine_type E (left predicate)) (\<lambda>tl.
              if tl = INTERVAL then
                err_bind (determine_type E (right predicate)) (\<lambda>tr.
                  if tr = INTERVAL then reorder_interval_calc E predicate
                  else Inr (Some predicate))
              else Inr (Some predicate))
          else Inr (Some predicate))
      else Inr (Some predicate))"

definition rewrite_rules :: "'c externals \<Rightarrow> 'c node \<Rightarrow> error + 'c node option" where
  "rewrite_rules E predicate =
     err_bind (rule_adjacent_wildcards predicate) (\<lambda>p1.
     err_bind (rule_like_to_eq p1) (\<lambda>p2.
     err_bind (rule_like_to_function p2) (\<lambda>res3.
       case res3 of
         Inl returned \<Rightarrow> Inr (Some returned)
       | Inr p3 \<Rightarrow>
           err_bind (rule_any_op_eq p3) (\<lambda>p4.
           err_bind (rule_in_to_eq p4) (\<lambda>res5.
             case res5 of
               Inl returned \<Rightarrow> Inr (Some returned)
             | Inr p5 \<Rightarrow> rule_interval E p5)))))"

text \<open>
  \<^verbatim>\<open>_rewrite_predicate\<close>. The recursive calls receive \<^verbatim>\<open>predicate.left\<close> and
  \<^verbatim>\<open>predicate.right\<close>; called on \<^verbatim>\<open>None\<close> the function fails on its first attribute
  access.
\<close>

lemma size_left [termination_simp]: "left n = Some l \<Longrightarrow> size l < size n"
  by (cases n) simp

lemma size_right [termination_simp]: "right n = Some r \<Longrightarrow> size r < size n"
  by (cases n) simp

fun rewrite_predicate :: "'c externals \<Rightarrow> 'c node \<Rightarrow> error + 'c node option" where
  "rewrite_predicate E predicate =
     (if node_type predicate \<notin> {BINARY_OPERATOR, COMPARISON_OPERATOR} then Inr (Some predicate)
      else
        err_bind
          (if node_type predicate \<in> {AND, OR, XOR} then
             (case left predicate of
                None \<Rightarrow> Inl AttributeError
              | Some l \<Rightarrow>
                  (case rewrite_predicate E l of
                     Inl e \<Rightarrow> Inl e
                   | Inr l' \<Rightarrow>
                       (case right predicate of
                          None \<Rightarrow> Inl AttributeError
                        | Some r \<Rightarrow>
                            (case rewrite_predicate E r of
                               Inl e \<Rightarrow> Inl e
                             | Inr r' \<Rightarrow> Inr (set_right r' (set_left l' predicate))))))
           else Inr predicate)
          (rewrite_rules E))"

text \<open>
  What the pattern-to-function rule does to a pattern, stated on the pattern alone:
  the function the predicate becomes and the text left of the pattern, or \<open>None\<close>
  when the rule leaves the predicate a pattern match.
\<close>

definition like_rewrite_target :: "string \<Rightarrow> (string \<times> string) option" where
  "like_rewrite_target pat =
     (if count_list pat (CHR ''%'') = 1 \<and> last pat = CHR ''%''
        then Some (''STARTS_WITH'', butlast pat)
      else if count_list pat (CHR ''%'') = 1 \<and> hd pat = CHR ''%''
        then Some (''ENDS_WITH'', tl pat)
      else if count_list pat (CHR ''%'') = 2 \<and> hd pat = CHR ''%'' \<and> last pat = CHR ''%''
              \<and> pat \<noteq> ''%%''
        then Some (''SEARCH'', butlast (tl pat))
      else None)"

text \<open>Small expression trees used to run the rewriter: \<open>x op 'pattern'\<close>.\<close>

definition example_identifier :: "string \<Rightarrow> string list option \<Rightarrow> 'c node" where
  "example_identifier x con =
     Node IDENTIFIER (PStr x) None None None [] (Some VARCHAR) None None None (Some x) (Some x)
       None None None False con None None"

definition example_literal :: "string \<Rightarrow> 'c node" where
  "example_literal s =
     Node LITERAL (PStr s) None None None [] (Some VARCHAR) None None None None None
       None None None False None None None"

definition example_comparison :: "string \<Rightarrow> 'c node \<Rightarrow> 'c node \<Rightarrow> 'c node" where
  "example_comparison op l r =
     Node COMPARISON_OPERATOR (PStr op) (Some l) (Some r) None [] None None None None None None
       None None None False None None None"

definition example_and :: "'c node \<Rightarrow> 'c node \<Rightarrow> 'c node" where
  "example_and l r =
     Node AND PNone (Some l) (Some r) None [] None None None None None None
       None None None False None None None"

text \<open>
  An instance of the helpers the functions take as parameters, to run them on examples:
  the hash of a string is its length plus one, a column is its identity.
\<close>

definition example_externals :: "string externals" where
  "example_externals =
     \<lparr>format_expression = (\<lambda>n. ''expr''), determine_type = (\<lambda>n. Inr VARCHAR),
      ExpressionColumn = (\<lambda>name t. name), CityHash64 = (\<lambda>s. of_nat (length s) + 1),
      py_str = (\<lambda>v. case v of PStr s \<Rightarrow> s | _ \<Rightarrow> ''value''),
      column_identity = (\<lambda>c. c)\<rparr>"

section \<open>Asynchronous scan\<close>

text \<open>
  \<^verbatim>\<open>operators/async_read_node.py\<close>. The operator thread of
  \<^verbatim>\<open>AsyncReaderNode.execute\<close> sees the reader thread only through the reply queue, so
  the model takes what \<^verbatim>\<open>data_queue.get(timeout=0.1)\<close> returns, call after call, as
  its input: a timeout (\<^verbatim>\<open>queue.Empty\<close>), an item \<^verbatim>\<open>(blob_name, reference)\<close>, or the
  termination marker \<^verbatim>\<open>None\<close>.
\<close>

datatype 'r queue_item = Timeout | Item string 'r | Terminate

text \<open>
  \<^verbatim>\<open>fetch_data\<close> enqueues one item for every blob name, in the order the reads complete,
  and the marker after them. (When a read raises, the marker is never enqueued.)
\<close>

definition fetch_data_delivers :: "(string \<Rightarrow> 'r) \<Rightarrow> string list \<Rightarrow> 'r queue_item list \<Rightarrow> bool" where
  "fetch_data_delivers reader blob_names q =
     (q \<noteq> [] \<and> last q = Terminate \<and> Terminate \<notin> set (butlast q)
      \<and> mset (concat (map (\<lambda>i. case i of Item b r \<Rightarrow> [(b, r)] | _ \<Rightarrow> []) q))
          = mset (map (\<lambda>b. (b, reader b)) blob_names))"

text \<open>
  What reading the bytes from the pool and decoding them does: it returns
  \<^verbatim>\<open>(num_rows, _, morsel)\<close> or raises; of an exception the code looks at whether it is
  an \<^verbatim>\<open>ArrowInvalid\<close> and at its text.
\<close>

datatype 'm decode_outcome = Decoded nat 'm | Raised bool string

text \<open>
  The collaborators of the scan that are not part of the modelled sources (decoders,
  morsel normalisation, Arrow tables), as parameters. \<open>empty_dataset\<close> is the table
  built for an empty listing, \<open>empty_table\<close> the one built after the loop.
\<close>

record ('m, 'r, 's) scan_env =
  get_decoder :: "string \<Rightarrow> error option"
  read_and_decode :: "string \<Rightarrow> 'r \<Rightarrow> 'm decode_outcome"
  struct_to_jsonb :: "'m \<Rightarrow> error + 'm"
  normalize_morsel :: "'m \<Rightarrow> error + 'm"
  cast :: "'m \<Rightarrow> 's \<Rightarrow> error + 'm"
  schema_of :: "'m \<Rightarrow> 's"
  schema_truthy :: "'s \<Rightarrow> bool"
  num_rows :: "'m \<Rightarrow> nat"
  nbytes :: "'m \<Rightarrow> nat"
  empty_dataset :: "'m"
  empty_table :: "'m"

text \<open>
  The counters of \<^verbatim>\<open>self.statistics\<close> and of the node, and the locals \<^verbatim>\<open>morsel\<close> and
  \<^verbatim>\<open>arrow_schema\<close> of \<^verbatim>\<open>execute\<close>. \<open>yielded\<close> are the morsels the generator has
  produced so far; \<open>warnings\<close> the calls of \<^verbatim>\<open>warnings.warn\<close> with the exception caught.
  The timers are left out.
\<close>

record ('m, 's) scan_state =
  columns_read :: nat
  stalls_reading_from_read_buffer :: nat
  rows_seen :: nat
  blobs_read :: nat
  rows_read :: nat
  failed_reads :: nat
  empty_datasets :: nat
  messages :: "string list"
  warnings :: "(string \<times> error) list"
  records_out :: nat
  bytes_out :: nat
  morsel_var :: "'m option"
  arrow_schema :: "'s option"
  yielded :: "'m list"

definition initial_scan_state :: "('m, 's) scan_state" where
  "initial_scan_state =
     \<lparr>columns_read = 0, stalls_reading_from_read_buffer = 0, rows_seen = 0, blobs_read = 0,
      rows_read = 0, failed_reads = 0, empty_datasets = 0, messages = [], warnings = [],
      records_out = 0, bytes_out = 0, morsel_var = None, arrow_schema = None, yielded = []\<rparr>"

definition drift_message :: "string \<Rightarrow> string" where
  "drift_message blob_name =
     ''Unable to read blob '' @ blob_name @
     '' - this error is likely caused by a blob having an significantly different schema to previously handled blobs, or the data catalog.''"

definition read_error_message :: "string \<Rightarrow> string \<Rightarrow> string" where
  "read_error_message blob_name err = ''Unable to read blob '' @ blob_name @ '' - error '' @ err"

text \<open>The inner \<^verbatim>\<open>try\<close>: read and decode, turning every exception into a \<^verbatim>\<open>DataError\<close>.\<close>

definition read_blob :: "('m, 'r, 's) scan_env \<Rightarrow> string \<Rightarrow> 'r \<Rightarrow> error + (nat \<times> 'm)" where
  "read_blob env blob_name reference =
     (case read_and_decode env blob_name reference of
        Decoded n m \<Rightarrow> Inr (n, m)
      | Raised is_arrow_invalid err \<Rightarrow>
          if is_arrow_invalid \<and> str_contains ''No match for'' err
          then Inl (DataError (drift_message blob_name))
          else Inl (DataError (read_error_message blob_name err)))"

text \<open>The outer handler \<^verbatim>\<open>except Exception as err\<close>.\<close>

definition failed_to_read :: "string \<Rightarrow> error \<Rightarrow> ('m, 's) scan_state \<Rightarrow> ('m, 's) scan_state" where
  "failed_to_read blob_name err st =
     st\<lparr>messages := messages st @ [''failed to read '' @ blob_name],
        failed_reads := failed_reads st + 1,
        warnings := warnings st @ [(blob_name, err)]\<rparr>"

text \<open>The body of the outer \<^verbatim>\<open>try\<close> for one item, with its handler.\<close>

definition process_blob ::
  "('m, 'r, 's) scan_env \<Rightarrow> string \<Rightarrow> 'r \<Rightarrow> ('m, 's) scan_state \<Rightarrow> ('m, 's) scan_state" where
  "process_blob env blob_name reference st =
     (case read_blob env blob_name reference of
        Inl e \<Rightarrow> failed_to_read blob_name e st
      | Inr (n, m) \<Rightarrow>
          let st1 = st\<lparr>rows_seen := rows_seen st + n, morsel_var := Some m\<rparr> in
          (case struct_to_jsonb env m of
             Inl e \<Rightarrow> failed_to_read blob_name e st1
           | Inr m1 \<Rightarrow>
               let st2 = st1\<lparr>morsel_var := Some m1\<rparr> in
               (case normalize_morsel env m1 of
                  Inl e \<Rightarrow> failed_to_read blob_name e st2
                | Inr m2 \<Rightarrow>
                    let st3 = st2\<lparr>morsel_var := Some m2\<rparr>;
                        aligned =
                          (case arrow_schema st3 of
                             None \<Rightarrow> Inr (m2, Some (schema_of env m2))
                           | Some s \<Rightarrow>
                               if schema_truthy env s
                               then (case cast env m2 s of
                                       Inl e \<Rightarrow> Inl e
                                     | Inr m3 \<Rightarrow> Inr (m3, Some s))
                               else Inr (m2, Some (schema_of env m2)))
                    in (case aligned of
                          Inl e \<Rightarrow> failed_to_read blob_name e st3
                        | Inr (m3, s') \<Rightarrow>
                            st3\<lparr>morsel_var := Some m3, arrow_schema := s',
                                blobs_read := blobs_read st3 + 1,
                                records_out := records_out st3 + num_rows env m3,
                                rows_read := rows_read st3 + num_rows env m3,
                                bytes_out := bytes_out st3 + nbytes env m3,
                                yielded := yielded st3 @ [m3]\<rparr>))))"

text \<open>
  The \<^verbatim>\<open>while True\<close> loop over the queue. \<open>None\<close>: the queue never delivers the marker
  and the loop does not return. \<open>Some (Inl e, st)\<close>: \<^verbatim>\<open>get_decoder\<close>, which stands outside
  the \<^verbatim>\<open>try\<close>, raised \<open>e\<close>.
\<close>

fun read_loop ::
  "('m, 'r, 's) scan_env \<Rightarrow> 'r queue_item list \<Rightarrow> ('m, 's) scan_state
     \<Rightarrow> (error option \<times> ('m, 's) scan_state) option" where
  "read_loop env [] st = None"
| "read_loop env (Timeout # q) st =
     read_loop env q
       (st\<lparr>stalls_reading_from_read_buffer := stalls_reading_from_read_buffer st + 1\<rparr>)"
| "read_loop env (Terminate # q) st = Some (None, st)"
| "read_loop env (Item blob_name reference # q) st =
     (case get_decoder env blob_name of
        Some e \<Rightarrow> Some (Some e, st)
      | None \<Rightarrow> read_loop env q (process_blob env blob_name reference st))"

text \<open>
  \<^verbatim>\<open>AsyncReaderNode.execute\<close>, from the listing of the blob names on. The result is
  the exception the generator raised, if any, and the final state with the morsels it
  produced.
\<close>

definition execute ::
  "('m, 'r, 's) scan_env \<Rightarrow> nat \<Rightarrow> string list \<Rightarrow> 'r queue_item list
     \<Rightarrow> (error option \<times> ('m, 's) scan_state) option" where
  "execute env projected_columns blob_names q =
     (let st0 = initial_scan_state\<lparr>columns_read := projected_columns\<rparr>;
          st1 = (if length blob_names = 0 then st0\<lparr>yielded := [empty_dataset env]\<rparr> else st0)
      in case read_loop env q st1 of
           None \<Rightarrow> None
         | Some (Some e, st) \<Rightarrow> Some (Some e, st)
         | Some (None, st) \<Rightarrow>
             (case morsel_var st of
                None \<Rightarrow>
                  Some (None, st\<lparr>empty_datasets := empty_datasets st + 1,
                                 yielded := yielded st @ [empty_table env]\<rparr>)
              | Some m \<Rightarrow> Some (None, st)))"

text \<open>
  An instance of the collaborators, to run the scan on examples: morsels are their row
  counts, every decoder is found, and the blob \<open>drifted.parquet\<close> fails to decode with
  Arrow's schema error.
\<close>

definition example_scan_env :: "(nat, nat, nat) scan_env" where
  "example_scan_env =
     \<lparr>get_decoder = (\<lambda>b. None),
      read_and_decode = (\<lambda>b r. if b = ''drifted.parquet''
                                 then Raised True ''No match for FieldRef.Name(extra)''
                                 else Decoded r r),
      struct_to_jsonb = Inr, normalize_morsel = Inr, cast = (\<lambda>m s. Inr m),
      schema_of = (\<lambda>m. 1), schema_truthy = (\<lambda>s. True), num_rows = (\<lambda>m. m),
      nbytes = (\<lambda>m. 8 * m), empty_dataset = 0, empty_table = 0\<rparr>"

section \<open>Expression identity\<close>

text \<open>\<^verbatim>\<open>hash_tree\<close> of \<^verbatim>\<open>components/binder/binder.py\<close>.\<close>

lemma size_centre [termination_simp]: "centre n = Some c \<Longrightarrow> size c < size n"
  by (cases n) simp

lemma size_parameters [termination_simp]: "p \<in> set (parameters n) \<Longrightarrow> size p < size n"
proof (cases n)
  case (Node nt v l r c ps ty st al so sc cn qc sch ide dn con fn df)
  assume "p \<in> set (parameters n)"
  with Node have "p \<in> set ps" by simp
  then have "size p \<le> size_list size ps" by (rule size_list_estimation') simp
  with Node show ?thesis by simp
qed

text \<open>\<^verbatim>\<open>str(node.source)\<close>: the text of the source, \<open>None\<close> for an absent one.\<close>

definition str_source :: "string option \<Rightarrow> string" where
  "str_source s = (case s of None \<Rightarrow> ''None'' | Some x \<Rightarrow> x)"

fun inner :: "'c externals \<Rightarrow> 'c node \<Rightarrow> 64 word" where
  "inner E n =
     (let h0 = 0;
          h1 = (case left n of None \<Rightarrow> h0 | Some l \<Rightarrow> xor h0 (inner E l));
          h2 = (case right n of None \<Rightarrow> h1 | Some r \<Rightarrow> xor h1 (inner E r));
          h3 = (case centre n of None \<Rightarrow> h2 | Some c \<Rightarrow> xor h2 (inner E c));
          h4 = fold (\<lambda>parameter h. xor h (inner E parameter)) (parameters n) h3
      in if h4 = 0 \<and> identity n \<noteq> None then
           (case identity n of Some i \<Rightarrow> CityHash64 E i | None \<Rightarrow> h4)
         else if h4 = 0 \<and> schema_column n \<noteq> None then
           (case schema_column n of Some c \<Rightarrow> CityHash64 E (column_identity E c) | None \<Rightarrow> h4)
         else if h4 = 0 \<and> value_n n \<noteq> PNone then CityHash64 E (py_str E (value_n n))
         else if h4 = 0 \<and> node_type n = WILDCARD then
           CityHash64 E (str_source (source n) @ ''*'')
         else h4)"

text \<open>\<^verbatim>\<open>hex(h)[2:]\<close>: the digits of \<open>h\<close> in base 16, without leading zeros.\<close>

definition hex_digit :: "nat \<Rightarrow> char" where
  "hex_digit d = ''0123456789abcdef'' ! d"

fun hex_of_nat :: "nat \<Rightarrow> string" where
  "hex_of_nat n =
     (if n < 16 then [hex_digit n] else hex_of_nat (n div 16) @ [hex_digit (n mod 16)])"

definition hash_tree :: "'c externals \<Rightarrow> 'c node \<Rightarrow> string" where
  "hash_tree E node =
     hex_of_nat (unat (xor (CityHash64 E (format_expression E node)) (inner E node)))"

text \<open>
  The algorithm as the specification words it: the XOR of the inner hashes of
  \<^verbatim>\<open>left\<close>, \<^verbatim>\<open>centre\<close>, \<^verbatim>\<open>right\<close> and the parameters; when that is 0, the first
  fallback that applies; when none applies, 0.
\<close>

fun spec_inner :: "'c externals \<Rightarrow> 'c node \<Rightarrow> 64 word" where
  "spec_inner E n =
     (let folded =
            xor (xor (xor (case left n of None \<Rightarrow> 0 | Some x \<Rightarrow> spec_inner E x)
                          (case centre n of None \<Rightarrow> 0 | Some x \<Rightarrow> spec_inner E x))
                     (case right n of None \<Rightarrow> 0 | Some x \<Rightarrow> spec_inner E x))
                (foldr xor (map (spec_inner E) (parameters n)) 0)
      in if folded \<noteq> 0 then folded
         else case identity n of
           Some i \<Rightarrow> CityHash64 E i
         | None \<Rightarrow>
            (case schema_column n of
               Some c \<Rightarrow> CityHash64 E (column_identity E c)
             | None \<Rightarrow>
                 if value_n n \<noteq> PNone then CityHash64 E (py_str E (value_n n))
                 else if node_type n = WILDCARD then CityHash64 E (str_source (source n) @ ''*'')
                 else 0))"

text \<open>Bound identifiers and a conjunction, to run \<^verbatim>\<open>hash_tree\<close> on.\<close>

definition example_bound_identifier :: "string \<Rightarrow> 'c \<Rightarrow> 'c node" where
  "example_bound_identifier x col =
     Node IDENTIFIER (PStr x) None None None [] (Some VARCHAR) None None None (Some x) (Some x)
       None (Some col) None False None None None"

definition example_identified :: "string \<Rightarrow> 'c node" where
  "example_identified i =
     Node BINARY_OPERATOR PNone None None None [] None None None None None None
       None None (Some i) False None None None"

section \<open>Single-key inner hash join\<close>

text \<open>
  \<^verbatim>\<open>operators/inner_join_node_single.py\<close>. The key column of a relation is an Arrow
  array: a type and, row by row, a value or null. An integer array holds integers; of
  the other supported types the code only reads the bytes of a value (the slot of the
  data buffer for the fixed-width types, the value itself for binary and string), so
  their values are byte strings. The validity bitmap is read from its first bit, as the
  code does: row \<open>i\<close> is valid when its entry is not \<open>None\<close>.
\<close>

datatype arrow_array =
  IntegerArray "int option list"
  | FixedSizeBinaryArray "string option list"
  | FloatingArray "string option list"
  | BinaryArray "string option list"
  | StringArray "string option list"
  | OtherArray "unit option list"

text \<open>
  Modelled from the spec: the class \<^verbatim>\<open>HashTable\<close> of \<^verbatim>\<open>opteryx.compiled.structures\<close>
  is not part of the modelled sources. The specification has it map a key to the list
  of row indices inserted under it, in insertion order. It is a compiled structure and
  its key is a machine integer of 64 bits, signed: \<^verbatim>\<open>insert\<close> and \<^verbatim>\<open>get\<close> convert
  the Python integer they are given, and a value that does not fit raises
  \<^verbatim>\<open>OverflowError\<close>.
\<close>

type_synonym hash_table = "(int \<times> nat) list"

definition fits_int64 :: "int \<Rightarrow> bool" where
  "fits_int64 k = (- (2 ^ 63) \<le> k \<and> k < 2 ^ 63)"

definition ht_insert :: "hash_table \<Rightarrow> int \<Rightarrow> nat \<Rightarrow> error + hash_table" where
  "ht_insert ht k row = (if fits_int64 k then Inr (ht @ [(k, row)]) else Inl OverflowError)"

definition rows_of :: "hash_table \<Rightarrow> int \<Rightarrow> nat list" where
  "rows_of ht k = map snd (filter (\<lambda>e. fst e = k) ht)"

definition ht_get :: "hash_table \<Rightarrow> int \<Rightarrow> error + nat list" where
  "ht_get ht k = (if fits_int64 k then Inr (rows_of ht k) else Inl OverflowError)"

text \<open>The locals \<^verbatim>\<open>null_array\<close>, \<^verbatim>\<open>value_offset_map\<close> and \<^verbatim>\<open>non_null_array\<close>.\<close>

definition null_array :: "'a option list \<Rightarrow> bool list" where
  "null_array cells = map (\<lambda>c. c \<noteq> None) cells"

definition value_offset_map :: "'a option list \<Rightarrow> nat list" where
  "value_offset_map cells = filter (\<lambda>i. null_array cells ! i) [0..<length cells]"

definition non_null_array :: "'a option list \<Rightarrow> 'a list" where
  "non_null_array cells = map the (filter (\<lambda>c. c \<noteq> None) cells)"

text \<open>
  The three loops of \<^verbatim>\<open>preprocess_left\<close>; a loop stops at the first call that raises.
  An integer array holds the values of any Arrow integer type, signed or unsigned, and
  the loop hands them to the table as they are. Python's \<^verbatim>\<open>hash\<close> is a parameter: it
  maps the bytes to a machine integer of 64 bits, whose signed value is the key.
\<close>

definition build_integer :: "int option list \<Rightarrow> error + hash_table" where
  "build_integer cells =
     fold (\<lambda>(i, val) acc. err_bind acc (\<lambda>ht. ht_insert ht val (value_offset_map cells ! i)))
       (enumerate 0 (non_null_array cells)) (Inr [])"

definition build_hashed :: "(string \<Rightarrow> 64 word) \<Rightarrow> string option list \<Rightarrow> error + hash_table" where
  "build_hashed hash cells =
     fold (\<lambda>i acc. err_bind acc (\<lambda>ht.
             if null_array cells ! i
             then (case cells ! i of
                     Some v \<Rightarrow> ht_insert ht (sint (hash v)) i
                   | None \<Rightarrow> Inr ht)
             else Inr ht))
       [0..<length cells] (Inr [])"

definition preprocess_left :: "(string \<Rightarrow> 64 word) \<Rightarrow> arrow_array \<Rightarrow> error + hash_table" where
  "preprocess_left hash array =
     (case array of
        IntegerArray cells \<Rightarrow> build_integer cells
      | FixedSizeBinaryArray cells \<Rightarrow> build_hashed hash cells
      | FloatingArray cells \<Rightarrow> build_hashed hash cells
      | BinaryArray cells \<Rightarrow> build_hashed hash cells
      | StringArray cells \<Rightarrow> build_hashed hash cells
      | OtherArray cells \<Rightarrow> Inl TypeError)"

text \<open>
  The loops of \<^verbatim>\<open>inner_join_with_preprocessed_left_side\<close>, which collect
  \<^verbatim>\<open>left_indexes\<close> and \<^verbatim>\<open>right_indexes\<close>; the result is the pair of lists that the
  code hands to \<^verbatim>\<open>align_tables\<close>.
\<close>

definition probe_integer :: "hash_table \<Rightarrow> int option list \<Rightarrow> error + (nat list \<times> nat list)" where
  "probe_integer ht cells =
     fold (\<lambda>(i, val) acc. err_bind acc (\<lambda>(left_indexes, right_indexes).
             err_bind (ht_get ht val) (\<lambda>rows.
               if rows \<noteq> []
               then Inr (left_indexes @ rows,
                         right_indexes @ replicate (length rows) (value_offset_map cells ! i))
               else Inr (left_indexes, right_indexes))))
       (enumerate 0 (non_null_array cells)) (Inr ([], []))"

definition probe_hashed ::
  "(string \<Rightarrow> 64 word) \<Rightarrow> hash_table \<Rightarrow> string option list
     \<Rightarrow> error + (nat list \<times> nat list)" where
  "probe_hashed hash ht cells =
     fold (\<lambda>i acc. err_bind acc (\<lambda>(left_indexes, right_indexes).
             if null_array cells ! i then
               (case cells ! i of
                  Some v \<Rightarrow>
                    err_bind (ht_get ht (sint (hash v))) (\<lambda>rows.
                      if rows \<noteq> []
                      then Inr (left_indexes @ rows, right_indexes @ replicate (length rows) i)
                      else Inr (left_indexes, right_indexes))
                | None \<Rightarrow> Inr (left_indexes, right_indexes))
             else Inr (left_indexes, right_indexes)))
       [0..<length cells] (Inr ([], []))"

definition inner_join_with_preprocessed_left_side ::
  "(string \<Rightarrow> 64 word) \<Rightarrow> arrow_array \<Rightarrow> hash_table \<Rightarrow> error + (nat list \<times> nat list)" where
  "inner_join_with_preprocessed_left_side hash array ht =
     (case array of
        IntegerArray cells \<Rightarrow> probe_integer ht cells
      | FixedSizeBinaryArray cells \<Rightarrow> probe_hashed hash ht cells
      | FloatingArray cells \<Rightarrow> probe_hashed hash ht cells
      | BinaryArray cells \<Rightarrow> probe_hashed hash ht cells
      | StringArray cells \<Rightarrow> probe_hashed hash ht cells
      | OtherArray cells \<Rightarrow> Inr ([], []))"

text \<open>
  The join of a left key column with one right morsel, as \<^verbatim>\<open>InnerJoinSingleNode\<close>
  runs it: the pairs \<open>(left_row, right_row)\<close> of the two index lists.
\<close>

definition hash_join_single ::
  "(string \<Rightarrow> 64 word) \<Rightarrow> arrow_array \<Rightarrow> arrow_array \<Rightarrow> error + (nat \<times> nat) list" where
  "hash_join_single hash left_key right_key =
     err_bind (preprocess_left hash left_key) (\<lambda>ht.
     err_bind (inner_join_with_preprocessed_left_side hash right_key ht)
       (\<lambda>(left_indexes, right_indexes). Inr (zip left_indexes right_indexes)))"

text \<open>
  The reference: the inner join on equality of the keys, nulls excluded, as the pairs of
  row numbers in the order of the right rows and, for one right row, of the left rows.
  \<open>matching_pairs\<close> is the same join on a key function of the values.
\<close>

definition matching_pairs :: "('a \<Rightarrow> 'k) \<Rightarrow> 'a option list \<Rightarrow> 'a option list \<Rightarrow> (nat \<times> nat) list" where
  "matching_pairs key ls rs =
     concat (map (\<lambda>r. map (\<lambda>l. (l, r))
                         (filter (\<lambda>l. case (ls ! l, rs ! r) of
                                          (Some a, Some b) \<Rightarrow> key a = key b
                                        | _ \<Rightarrow> False)
                            [0..<length ls]))
                 [0..<length rs])"

definition equi_join_pairs :: "'a option list \<Rightarrow> 'a option list \<Rightarrow> (nat \<times> nat) list" where
  "equi_join_pairs ls rs = matching_pairs (\<lambda>v. v) ls rs"

text \<open>The key columns of one type, with their cells.\<close>

fun same_type_cells :: "arrow_array \<Rightarrow> arrow_array \<Rightarrow> (string option list \<times> string option list) option" where
  "same_type_cells (FixedSizeBinaryArray ls) (FixedSizeBinaryArray rs) = Some (ls, rs)"
| "same_type_cells (FloatingArray ls) (FloatingArray rs) = Some (ls, rs)"
| "same_type_cells (BinaryArray ls) (BinaryArray rs) = Some (ls, rs)"
| "same_type_cells (StringArray ls) (StringArray rs) = Some (ls, rs)"
| "same_type_cells l r = None"

text \<open>The valid rows of a key column with their values, in row order.\<close>

definition valid_rows :: "'a option list \<Rightarrow> (nat \<times> 'a) list" where
  "valid_rows cells =
     concat (map (\<lambda>i. case cells ! i of Some v \<Rightarrow> [(i, v)] | None \<Rightarrow> []) [0..<length cells])"

text \<open>
  An instance of the hash, to run the join on examples: it reads the bytes as a number
  in base 256.
\<close>

definition example_hash :: "string \<Rightarrow> 64 word" where
  "example_hash s = of_nat (foldr (\<lambda>c n. of_char c + 256 * n) s 0)"

section \<open>Binder\<close>

text \<open>
  \<^verbatim>\<open>components/binder/binder.py\<close>. The binder mutates column and schema objects that
  the environment, the nodes and its own locals share, so the objects live in a store:
  a column object is its index in \<open>col_h\<close>, a schema object its index in \<open>sch_h\<close>, and
  creating an object appends to the store. A node's \<^verbatim>\<open>schema_column\<close> and a schema's
  \<^verbatim>\<open>columns\<close> hold column addresses. The dictionaries themselves are never mutated
  once built, so a dictionary is a value: the list of its items in insertion order.
\<close>

datatype column_kind = FlatColumn | ConstantColumn | FunctionColumn | ExpressionColumnKind

record column =
  kind :: column_kind
  name :: string
  aliases :: "string list"
  type_c :: OrsoTypes
  identity_c :: string
  value_c :: "nat pyval"
  origin :: "string list"
  binding :: "string option"
  expression :: "nat pyval"
  nullable :: bool

record relation_schema =
  schema_name :: string
  columns :: "nat list"

record heap =
  col_h :: "column list"
  sch_h :: "relation_schema list"

text \<open>A value of a schema dictionary: a schema object, or anything else.\<close>

datatype dval = Schema nat | NotSchema "nat pyval"

type_synonym schema_dict = "(string \<times> dval) list"

record binding_context =
  schemas :: schema_dict

text \<open>
  What the binder takes from outside the modelled sources: the session variables
  (\<^verbatim>\<open>connection.variables.as_column\<close>), the function registry, and the identity a new
  column object draws at random, here a function of the number of columns created so far.
\<close>

record binder_env =
  as_column :: "nat pyval \<Rightarrow> error + column"
  COMBINED_FUNCTIONS :: "string \<Rightarrow> bool"
  random_string :: "nat \<Rightarrow> string"

text \<open>\<^verbatim>\<open>column.all_names\<close>: the name and the aliases.\<close>

definition all_names :: "column \<Rightarrow> string list" where
  "all_names c = name c # aliases c"

text \<open>
  Modelled from the spec: \<^verbatim>\<open>RelationSchema.find_column\<close> (package \<^verbatim>\<open>orso\<close>) is not
  part of the modelled sources. The specification has it find a column when the name or
  any alias of the column equals the name looked for; the first such column of the
  schema is returned.
\<close>

definition find_column :: "heap \<Rightarrow> nat \<Rightarrow> string option \<Rightarrow> nat option" where
  "find_column h s column_name =
     (case column_name of
        None \<Rightarrow> None
      | Some v \<Rightarrow> find (\<lambda>a. v \<in> set (all_names (col_h h ! a))) (columns (sch_h h ! s)))"

text \<open>\<^verbatim>\<open>locate_identifier_in_loaded_schemas\<close>: the loop over \<^verbatim>\<open>schemas.values()\<close>.\<close>

fun locate_loop ::
  "heap \<Rightarrow> string option \<Rightarrow> dval list \<Rightarrow> nat option \<times> nat option
     \<Rightarrow> error + (nat option \<times> nat option)" where
  "locate_loop h v [] (column, found_source_relation) = Inr (column, found_source_relation)"
| "locate_loop h v (NotSchema x # rest) (column, found_source_relation) = Inl AttributeError"
| "locate_loop h v (Schema s # rest) (column, found_source_relation) =
     (case find_column h s v of
        None \<Rightarrow> locate_loop h v rest (column, found_source_relation)
      | Some found \<Rightarrow>
          if column \<noteq> None \<and> found_source_relation \<noteq> None
          then Inl (AmbiguousIdentifierError v)
          else locate_loop h v rest (Some found, Some s))"

definition locate_identifier_in_loaded_schemas ::
  "heap \<Rightarrow> string option \<Rightarrow> schema_dict \<Rightarrow> error + (nat option \<times> nat option)" where
  "locate_identifier_in_loaded_schemas h v schemas_d = locate_loop h v (map snd schemas_d) (None, None)"

text \<open>\<^verbatim>\<open>name.startswith(p)\<close>.\<close>

definition startswith :: "string \<Rightarrow> string \<Rightarrow> bool" where
  "startswith s p = (take (length p) s = p)"

text \<open>The candidate schemas of \<^verbatim>\<open>locate_identifier\<close>.\<close>

definition candidate_schemas :: "nat node \<Rightarrow> binding_context \<Rightarrow> schema_dict" where
  "candidate_schemas node context =
     (case source node of
        None \<Rightarrow> schemas context
      | Some src \<Rightarrow>
          if src \<noteq> []
          then filter (\<lambda>(n, schema). startswith n ''$shared'' \<or> n = src) (schemas context)
          else schemas context)"

text \<open>\<^verbatim>\<open>node.current_name[0] == "@"\<close>.\<close>

definition is_variable_name :: "string option \<Rightarrow> error + bool" where
  "is_variable_name current =
     (case current of
        None \<Rightarrow> Inl TypeError
      | Some [] \<Rightarrow> Inl IndexError
      | Some (c # cs) \<Rightarrow> Inr (c = CHR ''@''))"

text \<open>
  \<^verbatim>\<open>Node(node_type=LITERAL, schema_column=column, type=column.type, value=column.value)\<close>.
  Of the column classes only the constant column has the attribute \<^verbatim>\<open>value\<close>; reading
  it from a column of another class raises \<^verbatim>\<open>AttributeError\<close>.
\<close>

definition literal_of_column :: "heap \<Rightarrow> nat \<Rightarrow> error + nat node" where
  "literal_of_column h a =
     (if kind (col_h h ! a) = ConstantColumn
      then Inr (set_value (value_c (col_h h ! a))
                 (set_type (Some (type_c (col_h h ! a)))
                   (set_schema_column (Some a) (new_node LITERAL))))
      else Inl AttributeError)"

text \<open>\<^verbatim>\<open>schemas["$derived"].columns.append(column)\<close>, on the schema object of the entry.\<close>

definition append_derived :: "heap \<Rightarrow> schema_dict \<Rightarrow> nat \<Rightarrow> error + heap" where
  "append_derived h d a =
     (case map_of d ''$derived'' of
        None \<Rightarrow> Inl KeyError
      | Some (NotSchema x) \<Rightarrow> Inl AttributeError
      | Some (Schema s) \<Rightarrow>
          Inr (h\<lparr>sch_h := (sch_h h)[s := (sch_h h ! s)\<lparr>columns := columns (sch_h h ! s) @ [a]\<rparr>]\<rparr>))"

text \<open>Creating a column object: it goes to the end of the store.\<close>

definition new_column :: "heap \<Rightarrow> column \<Rightarrow> nat \<times> heap" where
  "new_column h c = (length (col_h h), h\<lparr>col_h := col_h h @ [c]\<rparr>)"

definition locate_identifier ::
  "binder_env \<Rightarrow> heap \<Rightarrow> nat node \<Rightarrow> binding_context
     \<Rightarrow> error + (nat node \<times> binding_context \<times> heap)" where
  "locate_identifier B h node context =
     (let candidates = candidate_schemas node context in
      if candidates = [] then Inl UnexpectedDatasetReferenceError
      else
        err_bind (locate_identifier_in_loaded_schemas h (source_column node) candidates)
          (\<lambda>(column, found_source_relation).
             case column of
               None \<Rightarrow>
                 err_bind (is_variable_name (current_name node)) (\<lambda>is_var.
                   if is_var then
                     err_bind (as_column B (value_n node)) (\<lambda>c.
                       let (a, h1) = new_column h c in
                       err_bind (literal_of_column h1 a) (\<lambda>lit.
                       err_bind (append_derived h1 (schemas context) a) (\<lambda>h2.
                         Inr (lit, context, h2))))
                   else Inl ColumnNotFoundError)
             | Some col \<Rightarrow>
                 err_bind (is_variable_name (current_name node)) (\<lambda>is_var.
                   if is_var then
                     err_bind (literal_of_column h col) (\<lambda>lit. Inr (lit, context, h))
                   else
                     let node1 =
                           (if source node = None \<or> source node = Some []
                            then set_source
                                   (map_option (\<lambda>s. schema_name (sch_h h ! s)) found_source_relation)
                                   node
                            else node);
                         h1 =
                           (case alias_n node1 of
                              None \<Rightarrow> h
                            | Some al \<Rightarrow>
                                if al \<noteq> [] \<and> al \<notin> set (all_names (col_h h ! col))
                                then h\<lparr>col_h := (col_h h)
                                        [col := (col_h h ! col)
                                           \<lparr>aliases := aliases (col_h h ! col) @ [al]\<rparr>]\<rparr>
                                else h);
                         node2 = set_schema_column (Some col) node1;
                         node3 =
                           (case origin (col_h h1 ! col) of
                              [o1] \<Rightarrow> set_source (Some o1) node2
                            | _ \<Rightarrow> node2)
                     in Inr (node3, context, h1))))"

text \<open>A dictionary value in which the identifier is found: a schema with a matching column.\<close>

definition matches :: "heap \<Rightarrow> string option \<Rightarrow> dval \<Rightarrow> bool" where
  "matches h v d = (case d of Schema s \<Rightarrow> find_column h s v \<noteq> None | NotSchema x \<Rightarrow> False)"

text \<open>
  An environment to run the binder on: the schema \<open>$derived\<close> with the flat column
  \<open>d\<close> and the constant column \<open>@v\<close> of a session variable, and the relations \<open>t\<close>
  and \<open>u\<close>, each with a flat column \<open>x\<close>.
\<close>

definition example_column :: "string \<Rightarrow> column" where
  "example_column nm =
     \<lparr>kind = FlatColumn, name = nm, aliases = [], type_c = VARCHAR, identity_c = ''id_'' @ nm,
      value_c = PNone, origin = [], binding = None, expression = PNone, nullable = True\<rparr>"

definition example_variable :: "string \<Rightarrow> nat pyval \<Rightarrow> column" where
  "example_variable nm v =
     \<lparr>kind = ConstantColumn, name = nm, aliases = [], type_c = INTEGER, identity_c = ''id_'' @ nm,
      value_c = v, origin = [], binding = None, expression = PNone, nullable = False\<rparr>"

definition example_heap :: heap where
  "example_heap =
     \<lparr>col_h = [example_column ''d'', example_variable ''@v'' (PInt 7), example_column ''x'',
               example_column ''x''],
      sch_h = [\<lparr>schema_name = ''$derived'', columns = [0, 1]\<rparr>,
               \<lparr>schema_name = ''t'', columns = [2]\<rparr>,
               \<lparr>schema_name = ''u'', columns = [3]\<rparr>]\<rparr>"

definition example_context :: binding_context where
  "example_context =
     \<lparr>schemas = [(''$derived'', Schema 0), (''t'', Schema 1), (''u'', Schema 2)]\<rparr>"

definition example_binder_env :: binder_env where
  "example_binder_env =
     \<lparr>as_column = (\<lambda>v. Inl KeyError), COMBINED_FUNCTIONS = (\<lambda>f. False),
      random_string = (\<lambda>n. ''fresh'')\<rparr>"

text \<open>An unbound identifier: \<open>source.column AS alias\<close>.\<close>

definition example_reference :: "string option \<Rightarrow> string \<Rightarrow> string option \<Rightarrow> nat node" where
  "example_reference src col_name al =
     Node IDENTIFIER (PStr col_name) None None None [] None None al src (Some col_name)
       (Some col_name) None None None False None None None"

subsection \<open>Merging schema dictionaries\<close>

text \<open>
  An argument of \<^verbatim>\<open>merge_schemas\<close>: a dictionary, or something that is not one.
\<close>

datatype merge_arg = Dict schema_dict | NotDict

text \<open>
  \<^verbatim>\<open>copy.deepcopy\<close> of a schema object: a new schema object whose columns are new
  column objects, one for each column object of the original (a column that the list
  holds twice is copied once), with the contents of the originals.
\<close>

definition index_of :: "'a list \<Rightarrow> 'a \<Rightarrow> nat" where
  "index_of xs a = length (takeWhile (\<lambda>x. x \<noteq> a) xs)"

definition deepcopy_schema :: "heap \<Rightarrow> nat \<Rightarrow> nat \<times> heap" where
  "deepcopy_schema h s =
     (let sch = sch_h h ! s;
          olds = remdups (columns sch);
          base = length (col_h h)
      in (length (sch_h h),
          h\<lparr>col_h := col_h h @ map (\<lambda>a. col_h h ! a) olds,
            sch_h := sch_h h @ [sch\<lparr>columns := map (\<lambda>a. base + index_of olds a) (columns sch)\<rparr>]\<rparr>))"

definition deepcopy_value :: "heap \<Rightarrow> dval \<Rightarrow> dval \<times> heap" where
  "deepcopy_value h v =
     (case v of
        Schema s \<Rightarrow> (let (s', h') = deepcopy_schema h s in (Schema s', h'))
      | NotSchema x \<Rightarrow> (NotSchema x, h))"

text \<open>
  Modelled from the spec: the operator \<^verbatim>\<open>+\<close> of \<^verbatim>\<open>RelationSchema\<close> (package
  \<^verbatim>\<open>orso\<close>) is not part of the modelled sources. The specification has it union the
  two schemas by column identity: the result is a new schema object, of the name of the
  first schema, holding the columns of the first schema and after them the columns of
  the second whose identity no column of the first has.
\<close>

definition union_by_identity :: "heap \<Rightarrow> nat list \<Rightarrow> nat list \<Rightarrow> nat list" where
  "union_by_identity h cols1 cols2 =
     cols1 @ filter (\<lambda>a. identity_c (col_h h ! a)
                           \<notin> set (map (\<lambda>b. identity_c (col_h h ! b)) cols1)) cols2"

definition schema_add :: "heap \<Rightarrow> nat \<Rightarrow> nat \<Rightarrow> nat \<times> heap" where
  "schema_add h s1 s2 =
     (length (sch_h h),
      h\<lparr>sch_h := sch_h h @
           [(sch_h h ! s1)\<lparr>columns :=
               union_by_identity h (columns (sch_h h ! s1)) (columns (sch_h h ! s2))\<rparr>]\<rparr>)"

text \<open>\<^verbatim>\<open>merged_dict[key] = v\<close> for a key the dictionary has.\<close>

definition dict_update :: "string \<Rightarrow> dval \<Rightarrow> schema_dict \<Rightarrow> schema_dict" where
  "dict_update key v d = map (\<lambda>(k, x). if k = key then (k, v) else (k, x)) d"

text \<open>
  The inner loop \<^verbatim>\<open>for key, value in dic.items()\<close> of \<^verbatim>\<open>merge_schemas\<close>. Adding a
  schema to an entry that is not a schema is a \<^verbatim>\<open>TypeError\<close> of Python's \<^verbatim>\<open>+=\<close>.
\<close>

fun merge_items :: "heap \<Rightarrow> schema_dict \<Rightarrow> schema_dict \<Rightarrow> error + (schema_dict \<times> heap)" where
  "merge_items h merged_dict [] = Inr (merged_dict, h)"
| "merge_items h merged_dict ((key, v) # items) =
     (case map_of merged_dict key of
        Some existing \<Rightarrow>
          (case v of
             Schema s2 \<Rightarrow>
               (case existing of
                  Schema s1 \<Rightarrow>
                    (case schema_add h s1 s2 of
                       (s, h') \<Rightarrow> merge_items h' (dict_update key (Schema s) merged_dict) items)
                | NotSchema x \<Rightarrow> Inl TypeError)
           | NotSchema y \<Rightarrow> Inl InvalidInternalStateError)
      | None \<Rightarrow>
          (case deepcopy_value h v of
             (v', h') \<Rightarrow> merge_items h' (merged_dict @ [(key, v')]) items))"

fun merge_dicts :: "heap \<Rightarrow> schema_dict \<Rightarrow> merge_arg list \<Rightarrow> error + (schema_dict \<times> heap)" where
  "merge_dicts h merged_dict [] = Inr (merged_dict, h)"
| "merge_dicts h merged_dict (NotDict # rest) = Inl InvalidInternalStateError"
| "merge_dicts h merged_dict (Dict dic # rest) =
     (case merge_items h merged_dict dic of
        Inl e \<Rightarrow> Inl e
      | Inr (m, h') \<Rightarrow> merge_dicts h' m rest)"

definition merge_schemas :: "heap \<Rightarrow> merge_arg list \<Rightarrow> error + (schema_dict \<times> heap)" where
  "merge_schemas h dicts = merge_dicts h [] dicts"

text \<open>A schema address of a dictionary value, if it is one.\<close>

definition fresh_value :: "heap \<Rightarrow> dval \<Rightarrow> bool" where
  "fresh_value h v = (case v of Schema s \<Rightarrow> length (sch_h h) \<le> s | NotSchema x \<Rightarrow> True)"

text \<open>
  \<open>extends h h'\<close>: every object of the store \<open>h\<close> is in \<open>h'\<close>, at its address and with
  its contents; \<open>h'\<close> may hold more objects.
\<close>

definition extends :: "heap \<Rightarrow> heap \<Rightarrow> bool" where
  "extends h h' =
     (length (col_h h) \<le> length (col_h h') \<and> take (length (col_h h)) (col_h h') = col_h h
      \<and> length (sch_h h) \<le> length (sch_h h') \<and> take (length (sch_h h)) (sch_h h') = sch_h h)"

subsection \<open>Binding an expression tree\<close>

text \<open>
  \<^verbatim>\<open>inner_binder\<close> and \<^verbatim>\<open>traversive_recursive_bind\<close>. The two functions call each other
  down the tree; Python bounds the depth of the recursion, and the model takes the bound
  as a parameter: \<open>None\<close> is the run that exceeds it, \<open>Some\<close> a run that returns or
  raises.
\<close>

definition run_bind ::
  "(error + 'a) option \<Rightarrow> ('a \<Rightarrow> (error + 'b) option) \<Rightarrow> (error + 'b) option" where
  "run_bind m f =
     (case m of None \<Rightarrow> None | Some (Inl e) \<Rightarrow> Some (Inl e) | Some (Inr x) \<Rightarrow> f x)"

text \<open>
  The column classes of package \<^verbatim>\<open>orso\<close> are not part of the modelled sources; the
  binder takes their constructors as parameters. A constructor is given the arguments
  that vary: \<^verbatim>\<open>name\<close>, \<^verbatim>\<open>aliases\<close>, then the others in the order of the code; the
  arguments that the code writes as constants (\<^verbatim>\<open>type=0\<close>, \<^verbatim>\<open>nullable=False\<close>) are
  the constructor's own. A constructor may raise. The constant column is given no
  identity and draws one at random: its first argument here.
\<close>

record column_classes =
  new_ConstantColumn ::
    "string \<Rightarrow> string \<Rightarrow> string list \<Rightarrow> OrsoTypes option \<Rightarrow> nat pyval \<Rightarrow> error + column"
  new_FlatColumn :: "string \<Rightarrow> string list list option \<Rightarrow> string \<Rightarrow> error + column"
  new_FunctionColumn :: "string \<Rightarrow> string list \<Rightarrow> string \<Rightarrow> string \<Rightarrow> error + column"
  new_ExpressionColumn :: "string \<Rightarrow> string list \<Rightarrow> nat pyval \<Rightarrow> string \<Rightarrow> error + column"

text \<open>\<^verbatim>\<open>a or b\<close> for an optional text \<open>a\<close>: \<open>b\<close> when \<open>a\<close> is \<^verbatim>\<open>None\<close> or empty.\<close>

definition py_or :: "string option \<Rightarrow> string \<Rightarrow> string" where
  "py_or a b = (case a of None \<Rightarrow> b | Some s \<Rightarrow> if s = [] then b else s)"

text \<open>\<^verbatim>\<open>[node.alias] if node.alias else []\<close>.\<close>

definition alias_list :: "string option \<Rightarrow> string list" where
  "alias_list a = (case a of None \<Rightarrow> [] | Some s \<Rightarrow> if s = [] then [] else [s])"

text \<open>
  The generator \<^verbatim>\<open>(inner_binder(parm, context) for parm in nodes)\<close>, run to its end:
  every call is given the one context object, as the calls before it left it.
\<close>

fun bind_each ::
  "(heap \<Rightarrow> nat node \<Rightarrow> binding_context \<Rightarrow> (error + (nat node \<times> binding_context \<times> heap)) option)
     \<Rightarrow> heap \<Rightarrow> nat node list \<Rightarrow> binding_context
     \<Rightarrow> (error + (nat node list \<times> binding_context \<times> heap)) option" where
  "bind_each bind h [] context = Some (Inr ([], context, h))"
| "bind_each bind h (parm # rest) context =
     run_bind (bind h parm context) (\<lambda>(parm', context1, h1).
     run_bind (bind_each bind h1 rest context1) (\<lambda>(rest', context2, h2).
       Some (Inr (parm' # rest', context2, h2))))"

text \<open>
  \<^verbatim>\<open>nodes, new_contexts = zip(*(...))\<close>, \<^verbatim>\<open>merge_schemas(*[ctx.schemas for ctx in
  new_contexts])\<close> and \<^verbatim>\<open>context.schemas = merged_schemas\<close>. Unpacking the \<^verbatim>\<open>zip\<close> of
  no pair raises \<^verbatim>\<open>ValueError\<close>. Every call returns the context object it was given,
  so the contexts are one object, and its schemas are merged with themselves, once for
  each node.
\<close>

definition bind_and_merge ::
  "(heap \<Rightarrow> nat node \<Rightarrow> binding_context \<Rightarrow> (error + (nat node \<times> binding_context \<times> heap)) option)
     \<Rightarrow> heap \<Rightarrow> nat node list \<Rightarrow> binding_context
     \<Rightarrow> (error + (nat node list \<times> binding_context \<times> heap)) option" where
  "bind_and_merge bind h nodes context =
     run_bind (bind_each bind h nodes context) (\<lambda>(nodes', context1, h1).
       if nodes' = [] then Some (Inl ValueError)
       else
         (case merge_schemas h1 (replicate (length nodes') (Dict (schemas context1))) of
            Inl e \<Rightarrow> Some (Inl e)
          | Inr (merged_schemas, h2) \<Rightarrow>
              Some (Inr (nodes', context1\<lparr>schemas := merged_schemas\<rparr>, h2))))"

text \<open>
  The step of \<^verbatim>\<open>inner_binder\<close> for an expression list, over \<^verbatim>\<open>node.value\<close>. A value
  that is not iterable raises \<^verbatim>\<open>TypeError\<close>; a member that is not a node has no
  attribute \<^verbatim>\<open>node_type\<close>.
\<close>

definition bind_expression_list ::
  "(heap \<Rightarrow> nat node \<Rightarrow> binding_context \<Rightarrow> (error + (nat node \<times> binding_context \<times> heap)) option)
     \<Rightarrow> heap \<Rightarrow> nat node \<Rightarrow> binding_context
     \<Rightarrow> (error + (nat node \<times> binding_context \<times> heap)) option" where
  "bind_expression_list bind h node context =
     (case value_n node of
        PNodes nodes \<Rightarrow>
          run_bind (bind_and_merge bind h nodes context) (\<lambda>(nodes', context1, h1).
            Some (Inr (set_value (PNodes nodes') node, context1, h1)))
      | PList xs \<Rightarrow> Some (Inl (if xs = [] then ValueError else AttributeError))
      | PStr s \<Rightarrow> Some (Inl (if s = [] then ValueError else AttributeError))
      | _ \<Rightarrow> Some (Inl TypeError))"

text \<open>\<^verbatim>\<open>traversive_recursive_bind\<close>, with the binder it calls on the sub trees.\<close>

definition traversive_recursive_bind ::
  "(heap \<Rightarrow> nat node \<Rightarrow> binding_context \<Rightarrow> (error + (nat node \<times> binding_context \<times> heap)) option)
     \<Rightarrow> heap \<Rightarrow> nat node \<Rightarrow> binding_context
     \<Rightarrow> (error + (nat node \<times> binding_context \<times> heap)) option" where
  "traversive_recursive_bind bind h node context =
     run_bind
       (case left node of
          None \<Rightarrow> Some (Inr (node, context, h))
        | Some l \<Rightarrow>
            run_bind (bind h l context) (\<lambda>(l', context1, h1).
              Some (Inr (set_left (Some l') node, context1, h1))))
       (\<lambda>(node, context, h).
     run_bind
       (case right node of
          None \<Rightarrow> Some (Inr (node, context, h))
        | Some r \<Rightarrow>
            run_bind (bind h r context) (\<lambda>(r', context1, h1).
              Some (Inr (set_right (Some r') node, context1, h1))))
       (\<lambda>(node, context, h).
     run_bind
       (case centre node of
          None \<Rightarrow> Some (Inr (node, context, h))
        | Some c \<Rightarrow>
            run_bind (bind h c context) (\<lambda>(c', context1, h1).
              Some (Inr (set_centre (Some c') node, context1, h1))))
       (\<lambda>(node, context, h).
     if parameters node \<noteq> [] then
       run_bind (bind_and_merge bind h (parameters node) context) (\<lambda>(parameters', context1, h1).
         Some (Inr (set_parameters parameters' node, context1, h1)))
     else Some (Inr (node, context, h)))))"

text \<open>
  The loop \<^verbatim>\<open>for schema in context.schemas.values()\<close> of \<^verbatim>\<open>inner_binder\<close>: the first
  column of that name in a schema of the context.
\<close>

fun find_in_schemas :: "heap \<Rightarrow> string \<Rightarrow> dval list \<Rightarrow> error + nat option" where
  "find_in_schemas h column_name [] = Inr None"
| "find_in_schemas h column_name (NotSchema x # rest) = Inl AttributeError"
| "find_in_schemas h column_name (Schema s # rest) =
     (case find_column h s (Some column_name) of
        Some found_column \<Rightarrow> Inr (Some found_column)
      | None \<Rightarrow> find_in_schemas h column_name rest)"

text \<open>\<^verbatim>\<open>schemas["$derived"]\<close>, as a schema object.\<close>

definition derived_schema :: "schema_dict \<Rightarrow> error + nat" where
  "derived_schema d =
     (case map_of d ''$derived'' of
        None \<Rightarrow> Inl KeyError
      | Some (NotSchema x) \<Rightarrow> Inl AttributeError
      | Some (Schema s) \<Rightarrow> Inr s)"

text \<open>
  \<^verbatim>\<open>COMBINED_FUNCTIONS.get(node.value)\<close> with the test \<^verbatim>\<open>if not func\<close>. The function
  found is written as its name. A list is not hashable.
\<close>

definition lookup_function :: "binder_env \<Rightarrow> nat pyval \<Rightarrow> error + string" where
  "lookup_function B v =
     (case v of
        PStr s \<Rightarrow> if COMBINED_FUNCTIONS B s then Inr s else Inl FunctionNotFoundError
      | PList xs \<Rightarrow> Inl TypeError
      | PNodes ns \<Rightarrow> Inl TypeError
      | _ \<Rightarrow> Inl FunctionNotFoundError)"

text \<open>
  \<^verbatim>\<open>hash_tree(node)\<close> on a node whose columns are objects of the store: the identity
  of a column is read from the object.
\<close>

definition hash_tree_in :: "nat externals \<Rightarrow> heap \<Rightarrow> nat node \<Rightarrow> string" where
  "hash_tree_in E h node = hash_tree (E\<lparr>column_identity := (\<lambda>a. identity_c (col_h h ! a))\<rparr>) node"

text \<open>
  The last part of \<^verbatim>\<open>inner_binder\<close>, \<^verbatim>\<open># Now do the node we're at\<close>, to its
  \<^verbatim>\<open>return\<close>. \<open>node_type0\<close> is the local \<^verbatim>\<open>node_type\<close>, read when the function was
  entered, and \<open>schemas0\<close> the local \<^verbatim>\<open>schemas\<close>, read before the sub trees were bound.
\<close>

definition bind_this_node ::
  "nat externals \<Rightarrow> binder_env \<Rightarrow> column_classes \<Rightarrow> NodeType \<Rightarrow> string \<Rightarrow> schema_dict
     \<Rightarrow> heap \<Rightarrow> nat node \<Rightarrow> binding_context \<Rightarrow> error + (nat node \<times> binding_context \<times> heap)" where
  "bind_this_node E B K node_type0 column_name schemas0 h node context =
     (let query_name = Some (py_or (alias_n node) column_name) in
      if node_type0 = LITERAL then
        err_bind (new_ConstantColumn K (random_string B (length (col_h h))) column_name
                    (alias_list (alias_n node)) (type_n node) (value_n node)) (\<lambda>c.
          let (a, h1) = new_column h c in
          err_bind (append_derived h1 schemas0 a) (\<lambda>h2.
            Inr (set_query_column query_name (set_schema_column (Some a) node),
                 context\<lparr>schemas := schemas0\<rparr>, h2)))
      else if node_type0 \<noteq> SUBQUERY \<and> \<not> do_not_create_column node then
        err_bind (derived_schema schemas0) (\<lambda>d.
          case find_column h d (Some column_name) of
            Some found \<Rightarrow>
              err_bind (new_FlatColumn K column_name
                          (if aliases (col_h h ! found) \<noteq> []
                           then Some [aliases (col_h h ! found)] else None)
                          (identity_c (col_h h ! found))) (\<lambda>c.
                let (a, h1) = new_column h c;
                    kept = filter (\<lambda>col. identity_c (col_h h1 ! col) \<noteq> identity_c (col_h h1 ! a))
                             (columns (sch_h h1 ! d));
                    h2 = h1\<lparr>sch_h := (sch_h h1)[d := (sch_h h1 ! d)\<lparr>columns := kept @ [a]\<rparr>]\<rparr>
                in Inr (set_node_type EVALUATED
                          (set_query_column query_name (set_schema_column (Some a) node)),
                        context, h2))
          | None \<Rightarrow>
              if node_type0 = FUNCTION \<or> node_type0 = AGGREGATOR then
                err_bind (lookup_function B (value_n node)) (\<lambda>func.
                err_bind (new_FunctionColumn K column_name (alias_list (alias_n node)) func
                            (hash_tree_in E h node)) (\<lambda>c.
                  let (a, h1) = new_column h c in
                  err_bind (append_derived h1 schemas0 a) (\<lambda>h2.
                    Inr (set_query_column query_name
                           (set_schema_column (Some a)
                              (set_derived_from (Some []) (set_function (Some func) node))),
                         context\<lparr>schemas := schemas0\<rparr>, h2))))
              else
                err_bind (new_ExpressionColumn K column_name (alias_list (alias_n node))
                            (value_n node) (hash_tree_in E h node)) (\<lambda>c.
                  let (a, h1) = new_column h c in
                  err_bind (append_derived h1 schemas0 a) (\<lambda>h2.
                    Inr (set_query_column query_name (set_schema_column (Some a) node),
                         context\<lparr>schemas := schemas0\<rparr>, h2))))
      else Inr (node, context\<lparr>schemas := schemas0\<rparr>, h))"

text \<open>\<^verbatim>\<open>inner_binder\<close>; \<open>depth\<close> is the depth of recursion left.\<close>

fun inner_binder ::
  "nat \<Rightarrow> nat externals \<Rightarrow> binder_env \<Rightarrow> column_classes \<Rightarrow> heap \<Rightarrow> nat node \<Rightarrow> binding_context
     \<Rightarrow> (error + (nat node \<times> binding_context \<times> heap)) option" where
  "inner_binder 0 E B K h node context = None"
| "inner_binder (Suc depth) E B K h node context =
     (let node_type0 = node_type node in
      if schema_column node \<noteq> None then Some (Inr (node, context, h))
      else if node_type0 = IDENTIFIER \<or> node_type0 = EVALUATED
      then Some (locate_identifier B h node context)
      else
        run_bind
          (if node_type0 = EXPRESSION_LIST
           then bind_expression_list (\<lambda>h1 parm context1. inner_binder depth E B K h1 parm context1)
                  h node context
           else Some (Inr (node, context, h)))
          (\<lambda>(node, context, h).
             let column_name = py_or (query_column node) (format_expression E node) in
             case find_in_schemas h column_name (map snd (schemas context)) of
               Inl e \<Rightarrow> Some (Inl e)
             | Inr (Some found_column) \<Rightarrow>
                 Some (Inr (set_query_column (Some (py_or (alias_n node) column_name))
                              (set_schema_column (Some found_column) node),
                            context, h))
             | Inr None \<Rightarrow>
                 let schemas0 = schemas context in
                 run_bind
                   (traversive_recursive_bind
                      (\<lambda>h1 parm context1. inner_binder depth E B K h1 parm context1)
                      h node context)
                   (\<lambda>(node, context, h).
                      Some (bind_this_node E B K node_type0 column_name schemas0 h node context))))"

text \<open>
  Instances to run the binder on: column classes that keep what they are given, and the
  parameters of the expression identity for nodes over the store.
\<close>

definition example_classes :: column_classes where
  "example_classes =
     \<lparr>new_ConstantColumn = (\<lambda>ident nm als ty v.
         case ty of
           None \<Rightarrow> Inl ValueError
         | Some t \<Rightarrow>
             Inr \<lparr>kind = ConstantColumn, name = nm, aliases = als, type_c = t, identity_c = ident,
                  value_c = v, origin = [], binding = None, expression = PNone,
                  nullable = False\<rparr>),
      new_FlatColumn = (\<lambda>nm als ident.
         Inr \<lparr>kind = FlatColumn, name = nm, aliases = (case als of None \<Rightarrow> [] | Some xs \<Rightarrow> concat xs),
              type_c = MISSING_TYPE, identity_c = ident, value_c = PNone, origin = [],
              binding = None, expression = PNone, nullable = True\<rparr>),
      new_FunctionColumn = (\<lambda>nm als func ident.
         Inr \<lparr>kind = FunctionColumn, name = nm, aliases = als, type_c = MISSING_TYPE,
              identity_c = ident, value_c = PNone, origin = [], binding = Some func,
              expression = PNone, nullable = True\<rparr>),
      new_ExpressionColumn = (\<lambda>nm als expr ident.
         Inr \<lparr>kind = ExpressionColumnKind, name = nm, aliases = als, type_c = MISSING_TYPE,
              identity_c = ident, value_c = PNone, origin = [], binding = None,
              expression = expr, nullable = True\<rparr>)\<rparr>"

definition example_binder_externals :: "nat externals" where
  "example_binder_externals =
     \<lparr>format_expression = (\<lambda>n. ''expr''), determine_type = (\<lambda>n. Inr VARCHAR),
      ExpressionColumn = (\<lambda>name t. 0), CityHash64 = (\<lambda>s. of_nat (length s) + 1),
      py_str = (\<lambda>v. case v of PStr s \<Rightarrow> s | _ \<Rightarrow> ''value''),
      column_identity = (\<lambda>c. [])\<rparr>"

text \<open>The literal \<open>7\<close>, not yet bound, and the identifier \<open>t.x\<close>, bound to its column.\<close>

definition example_unbound_literal :: "nat node" where
  "example_unbound_literal = set_value (PInt 7) (set_type (Some INTEGER) (new_node LITERAL))"

definition example_bound_reference :: "nat node" where
  "example_bound_reference =
     set_schema_column (Some 2) (example_reference (Some ''t'') ''x'' None)"

text \<open>Reading an attribute after an assignment.\<close>

lemma set_node_type_sel [simp]:
  "node_type (set_node_type x n) = x"
  "value_n (set_node_type x n) = value_n n"
  "left (set_node_type x n) = left n"
  "right (set_node_type x n) = right n"
  "centre (set_node_type x n) = centre n"
  "parameters (set_node_type x n) = parameters n"
  "type_n (set_node_type x n) = type_n n"
  "sub_type (set_node_type x n) = sub_type n"
  "alias_n (set_node_type x n) = alias_n n"
  "source (set_node_type x n) = source n"
  "source_column (set_node_type x n) = source_column n"
  "current_name (set_node_type x n) = current_name n"
  "query_column (set_node_type x n) = query_column n"
  "schema_column (set_node_type x n) = schema_column n"
  "identity (set_node_type x n) = identity n"
  "do_not_create_column (set_node_type x n) = do_not_create_column n"
  "source_connector (set_node_type x n) = source_connector n"
  "function_n (set_node_type x n) = function_n n"
  "derived_from (set_node_type x n) = derived_from n"
  by (cases n; simp)+

lemma set_value_sel [simp]:
  "node_type (set_value x n) = node_type n"
  "value_n (set_value x n) = x"
  "left (set_value x n) = left n"
  "right (set_value x n) = right n"
  "centre (set_value x n) = centre n"
  "parameters (set_value x n) = parameters n"
  "type_n (set_value x n) = type_n n"
  "sub_type (set_value x n) = sub_type n"
  "alias_n (set_value x n) = alias_n n"
  "source (set_value x n) = source n"
  "source_column (set_value x n) = source_column n"
  "current_name (set_value x n) = current_name n"
  "query_column (set_value x n) = query_column n"
  "schema_column (set_value x n) = schema_column n"
  "identity (set_value x n) = identity n"
  "do_not_create_column (set_value x n) = do_not_create_column n"
  "source_connector (set_value x n) = source_connector n"
  "function_n (set_value x n) = function_n n"
  "derived_from (set_value x n) = derived_from n"
  by (cases n; simp)+

lemma set_left_sel [simp]:
  "node_type (set_left x n) = node_type n"
  "value_n (set_left x n) = value_n n"
  "left (set_left x n) = x"
  "right (set_left x n) = right n"
  "centre (set_left x n) = centre n"
  "parameters (set_left x n) = parameters n"
  "type_n (set_left x n) = type_n n"
  "sub_type (set_left x n) = sub_type n"
  "alias_n (set_left x n) = alias_n n"
  "source (set_left x n) = source n"
  "source_column (set_left x n) = source_column n"
  "current_name (set_left x n) = current_name n"
  "query_column (set_left x n) = query_column n"
  "schema_column (set_left x n) = schema_column n"
  "identity (set_left x n) = identity n"
  "do_not_create_column (set_left x n) = do_not_create_column n"
  "source_connector (set_left x n) = source_connector n"
  "function_n (set_left x n) = function_n n"
  "derived_from (set_left x n) = derived_from n"
  by (cases n; simp)+

lemma set_right_sel [simp]:
  "node_type (set_right x n) = node_type n"
  "value_n (set_right x n) = value_n n"
  "left (set_right x n) = left n"
  "right (set_right x n) = x"
  "centre (set_right x n) = centre n"
  "parameters (set_right x n) = parameters n"
  "type_n (set_right x n) = type_n n"
  "sub_type (set_right x n) = sub_type n"
  "alias_n (set_right x n) = alias_n n"
  "source (set_right x n) = source n"
  "source_column (set_right x n) = source_column n"
  "current_name (set_right x n) = current_name n"
  "query_column (set_right x n) = query_column n"
  "schema_column (set_right x n) = schema_column n"
  "identity (set_right x n) = identity n"
  "do_not_create_column (set_right x n) = do_not_create_column n"
  "source_connector (set_right x n) = source_connector n"
  "function_n (set_right x n) = function_n n"
  "derived_from (set_right x n) = derived_from n"
  by (cases n; simp)+

lemma set_centre_sel [simp]:
  "node_type (set_centre x n) = node_type n"
  "value_n (set_centre x n) = value_n n"
  "left (set_centre x n) = left n"
  "right (set_centre x n) = right n"
  "centre (set_centre x n) = x"
  "parameters (set_centre x n) = parameters n"
  "type_n (set_centre x n) = type_n n"
  "sub_type (set_centre x n) = sub_type n"
  "alias_n (set_centre x n) = alias_n n"
  "source (set_centre x n) = source n"
  "source_column (set_centre x n) = source_column n"
  "current_name (set_centre x n) = current_name n"
  "query_column (set_centre x n) = query_column n"
  "schema_column (set_centre x n) = schema_column n"
  "identity (set_centre x n) = identity n"
  "do_not_create_column (set_centre x n) = do_not_create_column n"
  "source_connector (set_centre x n) = source_connector n"
  "function_n (set_centre x n) = function_n n"
  "derived_from (set_centre x n) = derived_from n"
  by (cases n; simp)+

lemma set_parameters_sel [simp]:
  "node_type (set_parameters x n) = node_type n"
  "value_n (set_parameters x n) = value_n n"
  "left (set_parameters x n) = left n"
  "right (set_parameters x n) = right n"
  "centre (set_parameters x n) = centre n"
  "parameters (set_parameters x n) = x"
  "type_n (set_parameters x n) = type_n n"
  "sub_type (set_parameters x n) = sub_type n"
  "alias_n (set_parameters x n) = alias_n n"
  "source (set_parameters x n) = source n"
  "source_column (set_parameters x n) = source_column n"
  "current_name (set_parameters x n) = current_name n"
  "query_column (set_parameters x n) = query_column n"
  "schema_column (set_parameters x n) = schema_column n"
  "identity (set_parameters x n) = identity n"
  "do_not_create_column (set_parameters x n) = do_not_create_column n"
  "source_connector (set_parameters x n) = source_connector n"
  "function_n (set_parameters x n) = function_n n"
  "derived_from (set_parameters x n) = derived_from n"
  by (cases n; simp)+

lemma set_type_sel [simp]:
  "node_type (set_type x n) = node_type n"
  "value_n (set_type x n) = value_n n"
  "left (set_type x n) = left n"
  "right (set_type x n) = right n"
  "centre (set_type x n) = centre n"
  "parameters (set_type x n) = parameters n"
  "type_n (set_type x n) = x"
  "sub_type (set_type x n) = sub_type n"
  "alias_n (set_type x n) = alias_n n"
  "source (set_type x n) = source n"
  "source_column (set_type x n) = source_column n"
  "current_name (set_type x n) = current_name n"
  "query_column (set_type x n) = query_column n"
  "schema_column (set_type x n) = schema_column n"
  "identity (set_type x n) = identity n"
  "do_not_create_column (set_type x n) = do_not_create_column n"
  "source_connector (set_type x n) = source_connector n"
  "function_n (set_type x n) = function_n n"
  "derived_from (set_type x n) = derived_from n"
  by (cases n; simp)+

lemma set_sub_type_sel [simp]:
  "node_type (set_sub_type x n) = node_type n"
  "value_n (set_sub_type x n) = value_n n"
  "left (set_sub_type x n) = left n"
  "right (set_sub_type x n) = right n"
  "centre (set_sub_type x n) = centre n"
  "parameters (set_sub_type x n) = parameters n"
  "type_n (set_sub_type x n) = type_n n"
  "sub_type (set_sub_type x n) = x"
  "alias_n (set_sub_type x n) = alias_n n"
  "source (set_sub_type x n) = source n"
  "source_column (set_sub_type x n) = source_column n"
  "current_name (set_sub_type x n) = current_name n"
  "query_column (set_sub_type x n) = query_column n"
  "schema_column (set_sub_type x n) = schema_column n"
  "identity (set_sub_type x n) = identity n"
  "do_not_create_column (set_sub_type x n) = do_not_create_column n"
  "source_connector (set_sub_type x n) = source_connector n"
  "function_n (set_sub_type x n) = function_n n"
  "derived_from (set_sub_type x n) = derived_from n"
  by (cases n; simp)+

lemma set_source_sel [simp]:
  "node_type (set_source x n) = node_type n"
  "value_n (set_source x n) = value_n n"
  "left (set_source x n) = left n"
  "right (set_source x n) = right n"
  "centre (set_source x n) = centre n"
  "parameters (set_source x n) = parameters n"
  "type_n (set_source x n) = type_n n"
  "sub_type (set_source x n) = sub_type n"
  "alias_n (set_source x n) = alias_n n"
  "source (set_source x n) = x"
  "source_column (set_source x n) = source_column n"
  "current_name (set_source x n) = current_name n"
  "query_column (set_source x n) = query_column n"
  "schema_column (set_source x n) = schema_column n"
  "identity (set_source x n) = identity n"
  "do_not_create_column (set_source x n) = do_not_create_column n"
  "source_connector (set_source x n) = source_connector n"
  "function_n (set_source x n) = function_n n"
  "derived_from (set_source x n) = derived_from n"
  by (cases n; simp)+

lemma set_query_column_sel [simp]:
  "node_type (set_query_column x n) = node_type n"
  "value_n (set_query_column x n) = value_n n"
  "left (set_query_column x n) = left n"
  "right (set_query_column x n) = right n"
  "centre (set_query_column x n) = centre n"
  "parameters (set_query_column x n) = parameters n"
  "type_n (set_query_column x n) = type_n n"
  "sub_type (set_query_column x n) = sub_type n"
  "alias_n (set_query_column x n) = alias_n n"
  "source (set_query_column x n) = source n"
  "source_column (set_query_column x n) = source_column n"
  "current_name (set_query_column x n) = current_name n"
  "query_column (set_query_column x n) = x"
  "schema_column (set_query_column x n) = schema_column n"
  "identity (set_query_column x n) = identity n"
  "do_not_create_column (set_query_column x n) = do_not_create_column n"
  "source_connector (set_query_column x n) = source_connector n"
  "function_n (set_query_column x n) = function_n n"
  "derived_from (set_query_column x n) = derived_from n"
  by (cases n; simp)+

lemma set_schema_column_sel [simp]:
  "node_type (set_schema_column x n) = node_type n"
  "value_n (set_schema_column x n) = value_n n"
  "left (set_schema_column x n) = left n"
  "right (set_schema_column x n) = right n"
  "centre (set_schema_column x n) = centre n"
  "parameters (set_schema_column x n) = parameters n"
  "type_n (set_schema_column x n) = type_n n"
  "sub_type (set_schema_column x n) = sub_type n"
  "alias_n (set_schema_column x n) = alias_n n"
  "source (set_schema_column x n) = source n"
  "source_column (set_schema_column x n) = source_column n"
  "current_name (set_schema_column x n) = current_name n"
  "query_column (set_schema_column x n) = query_column n"
  "schema_column (set_schema_column x n) = x"
  "identity (set_schema_column x n) = identity n"
  "do_not_create_column (set_schema_column x n) = do_not_create_column n"
  "source_connector (set_schema_column x n) = source_connector n"
  "function_n (set_schema_column x n) = function_n n"
  "derived_from (set_schema_column x n) = derived_from n"
  by (cases n; simp)+

lemma set_function_sel [simp]:
  "node_type (set_function x n) = node_type n"
  "value_n (set_function x n) = value_n n"
  "left (set_function x n) = left n"
  "right (set_function x n) = right n"
  "centre (set_function x n) = centre n"
  "parameters (set_function x n) = parameters n"
  "type_n (set_function x n) = type_n n"
  "sub_type (set_function x n) = sub_type n"
  "alias_n (set_function x n) = alias_n n"
  "source (set_function x n) = source n"
  "source_column (set_function x n) = source_column n"
  "current_name (set_function x n) = current_name n"
  "query_column (set_function x n) = query_column n"
  "schema_column (set_function x n) = schema_column n"
  "identity (set_function x n) = identity n"
  "do_not_create_column (set_function x n) = do_not_create_column n"
  "source_connector (set_function x n) = source_connector n"
  "function_n (set_function x n) = x"
  "derived_from (set_function x n) = derived_from n"
  by (cases n; simp)+

lemma set_derived_from_sel [simp]:
  "node_type (set_derived_from x n) = node_type n"
  "value_n (set_derived_from x n) = value_n n"
  "left (set_derived_from x n) = left n"
  "right (set_derived_from x n) = right n"
  "centre (set_derived_from x n) = centre n"
  "parameters (set_derived_from x n) = parameters n"
  "type_n (set_derived_from x n) = type_n n"
  "sub_type (set_derived_from x n) = sub_type n"
  "alias_n (set_derived_from x n) = alias_n n"
  "source (set_derived_from x n) = source n"
  "source_column (set_derived_from x n) = source_column n"
  "current_name (set_derived_from x n) = current_name n"
  "query_column (set_derived_from x n) = query_column n"
  "schema_column (set_derived_from x n) = schema_column n"
  "identity (set_derived_from x n) = identity n"
  "do_not_create_column (set_derived_from x n) = do_not_create_column n"
  "source_connector (set_derived_from x n) = source_connector n"
  "function_n (set_derived_from x n) = function_n n"
  "derived_from (set_derived_from x n) = x"
  by (cases n; simp)+

lemma new_node_sel [simp]:
  "node_type (new_node t) = t"
  "value_n (new_node t) = PNone"
  "left (new_node t) = None"
  "right (new_node t) = None"
  "centre (new_node t) = None"
  "parameters (new_node t) = []"
  "type_n (new_node t) = None"
  "sub_type (new_node t) = None"
  "alias_n (new_node t) = None"
  "source (new_node t) = None"
  "source_column (new_node t) = None"
  "current_name (new_node t) = None"
  "query_column (new_node t) = None"
  "schema_column (new_node t) = None"
  "identity (new_node t) = None"
  "do_not_create_column (new_node t) = False"
  "source_connector (new_node t) = None"
  "function_n (new_node t) = None"
  "derived_from (new_node t) = None"
  by (simp_all add: new_node_def)

lemma str_contains_single: "c \<in> set s \<Longrightarrow> str_contains [c] s"
  by (induction s) auto

lemma str_contains_pairD: "str_contains [a, b] s \<Longrightarrow> \<exists>xs ys. s = xs @ a # b # ys"
proof (induction s)
  case Nil
  then show ?case by simp
next
  case (Cons c cs)
  show ?case
  proof (cases "take 2 (c # cs) = [a, b]")
    case True
    then obtain ys where "c # cs = a # b # ys"
      by (cases cs) (auto simp: numeral_2_eq_2)
    then have "c # cs = [] @ a # b # ys" by simp
    then show ?thesis by blast
  next
    case False
    with Cons.prems have "str_contains [a, b] cs" by (auto simp: numeral_2_eq_2)
    then obtain xs ys where "cs = xs @ a # b # ys" using Cons.IH by blast
    then have "c # cs = (c # xs) @ a # b # ys" by simp
    then show ?thesis by blast
  qed
qed

lemma one_percent_no_run:
  assumes "count_list s (CHR ''%'') = 1"
  shows "\<not> str_contains ''%%'' s"
proof
  assume "str_contains ''%%'' s"
  then obtain xs ys where "s = xs @ CHR ''%'' # CHR ''%'' # ys"
    using str_contains_pairD by blast
  with assms show False by simp
qed

lemma two_percent_ends_no_run:
  assumes "count_list s (CHR ''%'') = 2" "hd s = CHR ''%''" "last s = CHR ''%''" "s \<noteq> ''%%''"
  shows "\<not> str_contains ''%%'' s"
proof
  assume "str_contains ''%%'' s"
  then obtain xs ys where s: "s = xs @ CHR ''%'' # CHR ''%'' # ys"
    using str_contains_pairD by blast
  with assms(1) have c: "count_list xs (CHR ''%'') = 0" "count_list ys (CHR ''%'') = 0" by simp_all
  have "xs = []"
  proof (cases xs)
    case (Cons x xs')
    with s assms(2) have "x = CHR ''%''" by simp
    with Cons c(1) show ?thesis by simp
  qed simp
  moreover have "ys = []"
  proof (rule ccontr)
    assume "ys \<noteq> []"
    with s assms(3) have "last ys = CHR ''%''" by simp
    with \<open>ys \<noteq> []\<close> have "CHR ''%'' \<in> set ys" using last_in_set by metis
    with c(2) show False by (simp add: count_list_0_iff)
  qed
  ultimately show False using s assms(4) by simp
qed

declare rewrite_predicate.simps [simp del]

lemma rewrite_predicate_not_operator:
  "node_type p \<notin> {BINARY_OPERATOR, COMPARISON_OPERATOR} \<Longrightarrow> rewrite_predicate E p = Inr (Some p)"
  by (subst rewrite_predicate.simps) simp

lemma rewrite_predicate_operator:
  "node_type p \<in> {BINARY_OPERATOR, COMPARISON_OPERATOR} \<Longrightarrow> rewrite_predicate E p = rewrite_rules E p"
  by (subst rewrite_predicate.simps) (auto simp: err_bind_def)

lemma rule_adjacent_wildcards_none:
  assumes "value_n p = PStr op" "right p = Some r" "value_n r = PStr pat"
    "\<not> str_contains ''%%'' pat"
  shows "rule_adjacent_wildcards p = Inr p"
  using assms by (simp add: rule_adjacent_wildcards_def err_bind_def value_in_def right_of_def py_contains_def)

lemma rule_like_to_eq_wildcard:
  assumes "value_n p = PStr op" "right p = Some r" "value_n r = PStr pat"
    "CHR ''%'' \<in> set pat"
  shows "rule_like_to_eq p = Inr p"
  using assms str_contains_single [of "CHR ''%''" pat]
  by (simp add: rule_like_to_eq_def err_bind_def value_in_def right_of_def py_contains_def)

lemma count_pos_mem: "0 < count_list s c \<Longrightarrow> c \<in> set s"
  by (metis count_list_0_iff less_numeral_extra(3))

text \<open>
  Claim C6 says that a predicate whose root is AND, OR or XOR has its two children
  rewritten before the rules run, so that \<open>x LIKE 'abc'\<close> under an AND becomes
  \<open>x = 'abc'\<close> as it does at top level. The code returns every node that is neither a
  binary nor a comparison operator at its first test, before the recursion: at top level
  the comparison is rewritten to \<open>Eq\<close>, and the conjunction of two such comparisons
  comes back as it went in.
\<close>

theorem rewrite_predicate_conjunction_unchanged:
  "rewrite_predicate E (example_comparison ''Like'' (example_identifier ''x'' con) (example_literal ''abc''))
     = Inr (Some (example_comparison ''Eq'' (example_identifier ''x'' con) (example_literal ''abc'')))
   \<and> rewrite_predicate E
        (example_and (example_comparison ''Like'' (example_identifier ''x'' con) (example_literal ''abc''))
                     (example_comparison ''Like'' (example_identifier ''y'' con) (example_literal ''abc'')))
     = Inr (Some
        (example_and (example_comparison ''Like'' (example_identifier ''x'' con) (example_literal ''abc''))
                     (example_comparison ''Like'' (example_identifier ''y'' con) (example_literal ''abc''))))"
proof
  let ?p = "example_comparison ''Like'' (example_identifier ''x'' con) (example_literal ''abc'') :: 'a node"
  have "rewrite_predicate E ?p = rewrite_rules E ?p"
    by (rule rewrite_predicate_operator) (simp add: example_comparison_def)
  also have "\<dots> = Inr (Some (example_comparison ''Eq'' (example_identifier ''x'' con) (example_literal ''abc'')))"
    by (simp add: rewrite_rules_def rule_adjacent_wildcards_def rule_like_to_eq_def
        rule_like_to_function_def rule_any_op_eq_def rule_in_to_eq_def rule_interval_def
        err_bind_def value_in_def right_of_def left_of_def py_contains_def table_lookup_def
        LIKE_REWRITES_def example_comparison_def example_literal_def example_identifier_def)
  finally show "rewrite_predicate E ?p = Inr (Some (example_comparison ''Eq'' (example_identifier ''x'' con) (example_literal ''abc'')))" .
next
  show "rewrite_predicate E
        (example_and (example_comparison ''Like'' (example_identifier ''x'' con) (example_literal ''abc''))
                     (example_comparison ''Like'' (example_identifier ''y'' con) (example_literal ''abc'')))
     = Inr (Some
        (example_and (example_comparison ''Like'' (example_identifier ''x'' con) (example_literal ''abc''))
                     (example_comparison ''Like'' (example_identifier ''y'' con) (example_literal ''abc''))))"
    by (rule rewrite_predicate_not_operator) (simp add: example_and_def)
qed

lemma rule_like_to_function_target:
  assumes op: "value_n p = PStr op" "op = ''Like'' \<or> op = ''ILike''"
    and l: "left p = Some l" "source_connector l = Some con" "con \<noteq> []"
      "set con \<inter> {''Sql'', ''Cql''} = {}"
    and r: "right p = Some r" "node_type r = LITERAL" "value_n r = PStr pat"
    and t: "like_rewrite_target pat = Some (fname, stripped)"
  shows "rule_like_to_function p =
     Inr (Inl (set_parameters
        [l, set_value (PStr stripped) r,
         set_value (PBool (op = ''ILike'')) (set_type (Some BOOLEAN) (new_node LITERAL))]
        (set_value (PStr fname) (set_node_type FUNCTION
           (set_right (Some (set_value (PStr stripped) r)) p)))))"
proof -
  have ne: "pat \<noteq> []" using t by (auto simp: like_rewrite_target_def split: if_splits)
  have m: "value_in (value_n p) [''Like'', ''ILike''] = Inr True"
    using op by (auto simp: value_in_def)
  consider
    (starts) "count_list pat (CHR ''%'') = 1" "last pat = CHR ''%''"
      "fname = ''STARTS_WITH''" "stripped = butlast pat"
  | (ends) "count_list pat (CHR ''%'') = 1" "last pat \<noteq> CHR ''%''" "hd pat = CHR ''%''"
      "fname = ''ENDS_WITH''" "stripped = tl pat"
  | (search) "count_list pat (CHR ''%'') = 2" "hd pat = CHR ''%''" "last pat = CHR ''%''"
      "fname = ''SEARCH''" "stripped = butlast (tl pat)"
    using t by (auto simp: like_rewrite_target_def split: if_splits)
  then show ?thesis
  proof cases
    case starts
    then show ?thesis using op l r ne m
      by (simp add: rule_like_to_function_def err_bind_def left_of_def right_of_def
          last_is_percent_def count_percent_def rewrite_to_starts_with_def
          like_to_function_def slice_drop_last_def Let_def)
  next
    case ends
    then show ?thesis using op l r ne m
      by (simp add: rule_like_to_function_def err_bind_def left_of_def right_of_def
          last_is_percent_def first_is_percent_def count_percent_def rewrite_to_ends_with_def
          like_to_function_def slice_drop_first_def Let_def)
  next
    case search
    then show ?thesis using op l r ne m
      by (simp add: rule_like_to_function_def err_bind_def left_of_def right_of_def
          last_is_percent_def first_is_percent_def count_percent_def rewrite_to_search_def
          like_to_function_def slice_inner_def Let_def)
  qed
qed

lemma like_rewrite_target_no_run:
  assumes "like_rewrite_target pat = Some (fname, stripped)"
  shows "\<not> str_contains ''%%'' pat" and "CHR ''%'' \<in> set pat"
proof -
  show "\<not> str_contains ''%%'' pat"
    using assms one_percent_no_run [of pat] two_percent_ends_no_run [of pat]
    by (auto simp: like_rewrite_target_def split: if_splits)
  have "0 < count_list pat (CHR ''%'')"
    using assms by (auto simp: like_rewrite_target_def split: if_splits)
  then show "CHR ''%'' \<in> set pat" by (rule count_pos_mem)
qed

text \<open>
  Claim C7, as amended: for every \<open>Like\<close> or \<open>ILike\<close> operator node whose left
  operand has a non-empty \<^verbatim>\<open>source_connector\<close> set disjoint from \<open>{Sql, Cql}\<close> and
  whose right operand is a LITERAL with a string pattern: a pattern with exactly one
  \<open>%\<close>, trailing, gives FUNCTION \<open>STARTS_WITH\<close> on the pattern without it; otherwise
  exactly one \<open>%\<close>, leading, gives \<open>ENDS_WITH\<close>; a pattern other than \<open>%%\<close> with
  exactly two \<open>%\<close>, one at each end, gives \<open>SEARCH\<close> on the text between them. The
  parameters are the left operand, the right operand with the pattern cut, and a
  BOOLEAN literal that is true exactly for \<open>ILike\<close>.
\<close>

theorem like_rewritten_to_function:
  assumes "node_type p = COMPARISON_OPERATOR \<or> node_type p = BINARY_OPERATOR"
    and "value_n p = PStr op" and "op = ''Like'' \<or> op = ''ILike''"
    and "left p = Some l" and "source_connector l = Some con" and "con \<noteq> []"
    and "set con \<inter> {''Sql'', ''Cql''} = {}"
    and "right p = Some r" and "node_type r = LITERAL" and "value_n r = PStr pat"
    and "like_rewrite_target pat = Some (fname, stripped)"
  shows "\<exists>res. rewrite_predicate E p = Inr (Some res)
      \<and> node_type res = FUNCTION \<and> value_n res = PStr fname
      \<and> parameters res =
          [l, set_value (PStr stripped) r,
           Node LITERAL (PBool (op = ''ILike'')) None None None [] (Some BOOLEAN) None None None
             None None None None None False None None None]"
proof -
  have 1: "rule_adjacent_wildcards p = Inr p"
    by (rule rule_adjacent_wildcards_none
        [OF assms(2) assms(8) assms(10) like_rewrite_target_no_run(1) [OF assms(11)]])
  have 2: "rule_like_to_eq p = Inr p"
    by (rule rule_like_to_eq_wildcard
        [OF assms(2) assms(8) assms(10) like_rewrite_target_no_run(2) [OF assms(11)]])
  have "rewrite_predicate E p = rewrite_rules E p"
    using assms(1) by (auto simp: rewrite_predicate_operator)
  then show ?thesis
    using 1 2 rule_like_to_function_target [OF assms(2-)]
    by (simp add: rewrite_rules_def err_bind_def new_node_def)
qed

theorem like_rewritten_to_function_witness:
  "\<exists>res. rewrite_predicate example_externals
       (example_comparison ''Like'' (example_identifier ''x'' (Some [''Blob''])) (example_literal ''abc%''))
        = Inr (Some res)
      \<and> node_type res = FUNCTION \<and> value_n res = PStr ''STARTS_WITH''
      \<and> parameters res =
          [example_identifier ''x'' (Some [''Blob'']), example_literal ''abc'',
           Node LITERAL (PBool False) None None None [] (Some BOOLEAN) None None None
             None None None None None False None None None]"
  using like_rewritten_to_function [of
      "example_comparison ''Like'' (example_identifier ''x'' (Some [''Blob''])) (example_literal ''abc%'')"
      "''Like''" "example_identifier ''x'' (Some [''Blob''])" "[''Blob'']" "example_literal ''abc%''"
      "''abc%''" "''STARTS_WITH''" "''abc''" example_externals]
  by (simp add: example_comparison_def example_identifier_def example_literal_def
      like_rewrite_target_def)


text \<open>
  Claim C7 as stated fails: a pattern with a \<open>%\<close> at both ends and a third inside is
  left a pattern match, and so is a predicate whose left operand has the empty connector
  set (which is disjoint from every set).
\<close>

theorem like_rewrite_counterexample:
  "rewrite_predicate example_externals
     (example_comparison ''ILike'' (example_identifier ''x'' (Some [''Blob''])) (example_literal ''%a%b%''))
    = Inr (Some (example_comparison ''ILike'' (example_identifier ''x'' (Some [''Blob'']))
                   (example_literal ''%a%b%'')))
   \<and> rewrite_predicate example_externals
     (example_comparison ''ILike'' (example_identifier ''x'' (Some [])) (example_literal ''abc%''))
    = Inr (Some (example_comparison ''ILike'' (example_identifier ''x'' (Some []))
                   (example_literal ''abc%'')))"
  by (simp add: rewrite_predicate_operator rewrite_rules_def rule_adjacent_wildcards_def
      rule_like_to_eq_def rule_like_to_function_def rule_any_op_eq_def rule_in_to_eq_def
      rule_interval_def err_bind_def value_in_def right_of_def left_of_def py_contains_def
      last_is_percent_def first_is_percent_def count_percent_def
      example_comparison_def example_literal_def example_identifier_def)

lemma read_loop_timeouts:
  "\<forall>x \<in> set q. x = Timeout \<Longrightarrow>
   read_loop env (q @ [Terminate]) st =
     Some (None, st\<lparr>stalls_reading_from_read_buffer :=
                        stalls_reading_from_read_buffer st + length q\<rparr>)"
  by (induction q arbitrary: st) auto

lemma fetch_data_delivers_empty:
  assumes "fetch_data_delivers reader [] q"
  shows "\<exists>ts. q = ts @ [Terminate] \<and> (\<forall>x \<in> set ts. x = Timeout)"
proof -
  from assms have ne: "q \<noteq> []" and l: "last q = Terminate" and nt: "Terminate \<notin> set (butlast q)"
    and items: "concat (map (\<lambda>i. case i of Item b r \<Rightarrow> [(b, r)] | _ \<Rightarrow> []) q) = []"
    by (simp_all add: fetch_data_delivers_def)
  have q: "q = butlast q @ [Terminate]" using ne l by (metis append_butlast_last_id)
  have "\<forall>x \<in> set (butlast q). x = Timeout"
  proof
    fix x assume x: "x \<in> set (butlast q)"
    then have "x \<in> set q" by (rule in_set_butlastD)
    with items have "(case x of Item b r \<Rightarrow> [(b, r)] | _ \<Rightarrow> []) = []" by auto
    moreover from x nt have "x \<noteq> Terminate" by auto
    ultimately show "x = Timeout" by (cases x) simp_all
  qed
  with q show ?thesis by blast
qed

text \<open>
  Claim C3 says that a scan whose blob listing is empty emits exactly one morsel. The
  code yields the empty dataset and goes on: it reads the queue to the marker, finds
  that \<^verbatim>\<open>morsel\<close> is still \<^verbatim>\<open>None\<close>, and yields the empty table as well.
\<close>

theorem execute_empty_listing_two_morsels:
  assumes "fetch_data_delivers reader [] q"
  shows "\<exists>st. execute env projected_columns [] q = Some (None, st)
           \<and> yielded st = [empty_dataset env, empty_table env] \<and> empty_datasets st = 1"
proof -
  obtain ts where q: "q = ts @ [Terminate]" and ts: "\<forall>x \<in> set ts. x = Timeout"
    using fetch_data_delivers_empty [OF assms] by blast
  show ?thesis
    unfolding q execute_def
    by (simp add: read_loop_timeouts [OF ts] initial_scan_state_def Let_def)
qed

theorem execute_empty_listing_two_morsels_witness:
  "\<exists>st. execute example_scan_env 3 [] [Timeout, Terminate] = Some (None, st)
      \<and> yielded st = [0, 0] \<and> empty_datasets st = 1"
  using execute_empty_listing_two_morsels
    [of "\<lambda>b. 0" "[Timeout, Terminate]" example_scan_env 3]
  by (simp add: fetch_data_delivers_def example_scan_env_def)

lemma read_loop_raises_only_get_decoder:
  "read_loop env q st = Some (Some e, st') \<Longrightarrow> \<exists>b. get_decoder env b = Some e"
  by (induction env q st rule: read_loop.induct) (auto split: option.splits)

text \<open>
  Claim C2 says that a decode failing with Arrow's \<open>No match for\<close> error fails the
  statement with a \<^verbatim>\<open>DataError\<close>. The code raises that \<^verbatim>\<open>DataError\<close> inside the outer
  \<^verbatim>\<open>try\<close>, whose handler catches it like every other exception: the failure is logged,
  \<^verbatim>\<open>failed_reads\<close> is incremented and the loop goes on with the rest of the queue,
  in the state the handler leaves.
\<close>

theorem read_loop_swallows_schema_drift:
  assumes "get_decoder env blob_name = None"
    and "read_and_decode env blob_name reference = Raised True err"
    and "str_contains ''No match for'' err"
  shows "read_loop env (Item blob_name reference # q) st =
           read_loop env q
             (st\<lparr>messages := messages st @ [''failed to read '' @ blob_name],
                 failed_reads := failed_reads st + 1,
                 warnings := warnings st @ [(blob_name, DataError (drift_message blob_name))]\<rparr>)"
  using assms by (simp add: process_blob_def read_blob_def failed_to_read_def)

theorem read_loop_swallows_schema_drift_witness:
  "\<exists>st. execute example_scan_env 3 [''drifted.parquet'', ''good.parquet'']
          [Item ''drifted.parquet'' 5, Item ''good.parquet'' 7, Terminate] = Some (None, st)
      \<and> failed_reads st = 1
      \<and> messages st = [''failed to read drifted.parquet'']
      \<and> warnings st = [(''drifted.parquet'', DataError (drift_message ''drifted.parquet''))]
      \<and> yielded st = [7]"
proof -
  have "read_loop example_scan_env
          [Item ''drifted.parquet'' 5, Item ''good.parquet'' 7, Terminate]
          (initial_scan_state\<lparr>columns_read := 3\<rparr>) =
        read_loop example_scan_env [Item ''good.parquet'' 7, Terminate]
          (initial_scan_state\<lparr>columns_read := 3,
             messages := [''failed to read drifted.parquet''], failed_reads := 1,
             warnings := [(''drifted.parquet'', DataError (drift_message ''drifted.parquet''))]\<rparr>)"
    using read_loop_swallows_schema_drift [of example_scan_env "''drifted.parquet''" 5
        "''No match for FieldRef.Name(extra)''" "[Item ''good.parquet'' 7, Terminate]"
        "initial_scan_state\<lparr>columns_read := 3\<rparr>"]
    by (simp add: example_scan_env_def initial_scan_state_def)
  then show ?thesis
    by (simp add: execute_def Let_def process_blob_def read_blob_def example_scan_env_def
        initial_scan_state_def)
qed

declare inner.simps [simp del] spec_inner.simps [simp del] hex_of_nat.simps [simp del]

lemma fold_xor_foldr:
  "fold (\<lambda>p h. xor h (f p)) ps (h :: 64 word) = xor h (foldr xor (map f ps) 0)"
  by (induction ps arbitrary: h) (simp_all add: ac_simps)

lemma inner_eq_spec_inner: "inner E n = spec_inner E n"
proof (induction E n rule: inner.induct)
  case (1 E n)
  have l: "\<And>x. left n = Some x \<Longrightarrow> inner E x = spec_inner E x"
    using "1.IH"(1) by simp
  have r: "\<And>x. right n = Some x \<Longrightarrow> inner E x = spec_inner E x"
    using "1.IH"(2) by simp
  have c: "\<And>x. centre n = Some x \<Longrightarrow> inner E x = spec_inner E x"
    using "1.IH"(3) by simp
  have ps: "map (inner E) (parameters n) = map (spec_inner E) (parameters n)"
    using "1.IH"(4) by (intro map_cong) auto
  show ?case
    apply (subst inner.simps)
    apply (subst spec_inner.simps)
    apply (simp only: Let_def fold_xor_foldr ps)
    apply (cases "left n"; cases "right n"; cases "centre n";
           cases "identity n"; cases "schema_column n")
    apply (simp_all add: l r c ac_simps)
    done
qed

text \<open>
  Claim C5, as amended: \<^verbatim>\<open>hash_tree\<close> is a function of the node and of the hash: it
  is the hexadecimal text of \<open>hash(format(node)) XOR inner(node)\<close>, where \<open>inner\<close> is the
  XOR of the children's inner hashes and, when that is 0, the first that applies of the
  hash of the existing identity, of the identity of \<^verbatim>\<open>schema_column\<close>, of the
  stringified value, and of \<open>source + "*"\<close> for a WILDCARD; when none applies it is 0.
\<close>

theorem hash_tree_spec:
  "inner E n = spec_inner E n
   \<and> hash_tree E n = hex_of_nat (unat (xor (CityHash64 E (format_expression E n)) (spec_inner E n)))"
  by (simp add: hash_tree_def inner_eq_spec_inner)

text \<open>
  Claim C5 as stated fails where it promises a non-zero identity. The conjunction
  \<open>x AND x\<close> of one bound identifier with itself has equal children, whose hashes
  cancel, and no identity, column or value of its own: its inner hash is 0. And a
  childless node whose identity is its own formatted text hashes to the identity \<open>0\<close>.
\<close>

theorem hash_tree_zero_counterexample:
  "inner example_externals
     (example_and (example_bound_identifier ''x'' ''c1'') (example_bound_identifier ''x'' ''c1'')) = 0
   \<and> hash_tree example_externals (example_identified ''expr'') = ''0''"
proof
  have leaf: "inner example_externals (example_bound_identifier ''x'' ''c1'') = 3"
    by (subst inner.simps) (simp add: example_bound_identifier_def example_externals_def)
  show "inner example_externals
     (example_and (example_bound_identifier ''x'' ''c1'') (example_bound_identifier ''x'' ''c1'')) = 0"
    by (subst inner.simps) (simp add: example_and_def leaf)
next
  have "inner example_externals (example_identified ''expr'') = 5"
    by (subst inner.simps) (simp add: example_identified_def example_externals_def)
  then show "hash_tree example_externals (example_identified ''expr'') = ''0''"
    by (simp add: hash_tree_def example_externals_def hex_of_nat.simps [of 0] hex_digit_def)
qed

lemma valid_rows_snoc:
  "valid_rows (cells @ [c]) =
     valid_rows cells @ (case c of Some v \<Rightarrow> [(length cells, v)] | None \<Rightarrow> [])"
proof -
  have eq: "map (\<lambda>i. case (cells @ [c]) ! i of Some v \<Rightarrow> [(i, v)] | None \<Rightarrow> []) [0..<length cells]
        = map (\<lambda>i. case cells ! i of Some v \<Rightarrow> [(i, v)] | None \<Rightarrow> []) [0..<length cells]"
    by (rule map_cong) (simp_all add: nth_append)
  show ?thesis by (simp add: valid_rows_def eq)
qed

lemma valid_rows_Nil [simp]: "valid_rows [] = []"
  by (simp add: valid_rows_def)

lemma value_offset_map_eq: "value_offset_map cells = map fst (valid_rows cells)"
proof (induction cells rule: rev_induct)
  case Nil
  show ?case by (simp add: value_offset_map_def)
next
  case (snoc c cells)
  have "filter (\<lambda>i. null_array (cells @ [c]) ! i) [0..<length cells]
        = filter (\<lambda>i. null_array cells ! i) [0..<length cells]"
    by (rule filter_cong) (auto simp: null_array_def nth_append)
  with snoc show ?case
    by (cases c) (simp_all add: value_offset_map_def valid_rows_snoc null_array_def nth_append)
qed

lemma non_null_array_eq: "non_null_array cells = map snd (valid_rows cells)"
  by (induction cells rule: rev_induct)
     (auto simp: non_null_array_def valid_rows_snoc split: option.splits)

lemma enumerate_nth_zip:
  "length xs = length ys \<Longrightarrow>
   map (\<lambda>(i, x). (x, ys ! i)) (enumerate 0 xs) = zip xs ys"
  by (rule nth_equalityI) (simp_all add: nth_enumerate_eq)

lemma enumerated_valid_rows:
  "map (\<lambda>(i, val). (val, value_offset_map cells ! i)) (enumerate 0 (non_null_array cells))
   = map (\<lambda>(i, v). (v, i)) (valid_rows cells)"
proof -
  have "map (\<lambda>(i, val). (val, value_offset_map cells ! i)) (enumerate 0 (non_null_array cells))
        = zip (non_null_array cells) (value_offset_map cells)"
    by (rule enumerate_nth_zip) (simp add: value_offset_map_eq non_null_array_eq)
  also have "\<dots> = map (\<lambda>(i, v). (v, i)) (valid_rows cells)"
    by (simp add: value_offset_map_eq non_null_array_eq zip_map_map zip_same_conv_map
        case_prod_beta)
  finally show ?thesis .
qed

lemma fold_append_acc:
  "fold (\<lambda>x acc. acc @ g x) xs acc = acc @ concat (map g xs)"
  by (induction xs arbitrary: acc) simp_all

lemma fold_append_pair:
  "fold (\<lambda>x (ls, rs). (ls @ f x, rs @ g x)) xs (ls0, rs0)
   = (ls0 @ concat (map f xs), rs0 @ concat (map g xs))"
  by (induction xs arbitrary: ls0 rs0) simp_all

lemma fold_err_ok:
  assumes "\<And>x s. x \<in> set xs \<Longrightarrow> step x s = Inr (f x s)"
  shows "fold (\<lambda>x acc. err_bind acc (step x)) xs (Inr s0) = Inr (fold f xs s0)"
  using assms by (induction xs arbitrary: s0) (simp_all add: err_bind_def)

lemma snd_set_enumerate: "snd ` set (enumerate n xs) = set xs"
  by (simp add: set_map [symmetric] del: set_map)

lemma enumerate_snd_member: "x \<in> set (enumerate n xs) \<Longrightarrow> snd x \<in> set xs"
  unfolding snd_set_enumerate [of n xs, symmetric] by (rule imageI)

lemma err_bind_Inl: "err_bind (Inl e) f = Inl e"
  by (simp add: err_bind_def)

lemma err_bind_Inr: "err_bind (Inr s) f = f s"
  by (simp add: err_bind_def)

lemma non_null_array_member:
  "v \<in> set (non_null_array cells) \<Longrightarrow> Some v \<in> set cells"
  by (auto simp: non_null_array_def)

lemma build_integer_eq:
  assumes "\<forall>v. Some v \<in> set cells \<longrightarrow> fits_int64 v"
  shows "build_integer cells = Inr (map (\<lambda>(i, v). (v, i)) (valid_rows cells))"
proof -
  have "build_integer cells =
        fold (\<lambda>x acc. err_bind acc (\<lambda>ht. ht_insert ht (snd x) (value_offset_map cells ! fst x)))
          (enumerate 0 (non_null_array cells)) (Inr [])"
    by (simp add: build_integer_def split_def)
  also have "\<dots> = Inr (fold (\<lambda>x acc. acc @ [(snd x, value_offset_map cells ! fst x)])
                          (enumerate 0 (non_null_array cells)) [])"
  proof (rule fold_err_ok)
    fix x s assume "x \<in> set (enumerate 0 (non_null_array cells))"
    then have "snd x \<in> set (non_null_array cells)"
      by (rule enumerate_snd_member)
    then have "Some (snd x) \<in> set cells" by (rule non_null_array_member)
    with assms have "fits_int64 (snd x)" by simp
    then show "ht_insert s (snd x) (value_offset_map cells ! fst x)
               = Inr (s @ [(snd x, value_offset_map cells ! fst x)])"
      by (simp add: ht_insert_def)
  qed
  also have "fold (\<lambda>x acc. acc @ [(snd x, value_offset_map cells ! fst x)])
               (enumerate 0 (non_null_array cells)) []
             = map (\<lambda>(i, val). (val, value_offset_map cells ! i))
                 (enumerate 0 (non_null_array cells))"
    by (simp add: fold_append_acc split_def concat_map_singleton)
  finally show ?thesis by (simp add: enumerated_valid_rows)
qed

lemma sint_fits_int64: "fits_int64 (sint (w :: 64 word))"
  using sint_ge [of w] sint_lt [of w] by (simp add: fits_int64_def)

lemma valid_rows_nth:
  "(i, v) \<in> set (valid_rows cells) \<longleftrightarrow> i < length cells \<and> cells ! i = Some v"
  by (auto simp: valid_rows_def split: option.splits)

lemma build_hashed_eq:
  "build_hashed hash cells = Inr (map (\<lambda>(i, v). (sint (hash v), i)) (valid_rows cells))"
proof -
  have "build_hashed hash cells =
        Inr (fold (\<lambda>i acc. acc @ (case cells ! i of Some v \<Rightarrow> [(sint (hash v), i)] | None \<Rightarrow> []))
               [0..<length cells] [])"
    unfolding build_hashed_def
  proof (rule fold_err_ok)
    fix x s assume "x \<in> set [0..<length cells]"
    then show "(if null_array cells ! x
                then case cells ! x of None \<Rightarrow> Inr s | Some v \<Rightarrow> ht_insert s (sint (hash v)) x
                else Inr s)
               = Inr (s @ (case cells ! x of Some v \<Rightarrow> [(sint (hash v), x)] | None \<Rightarrow> []))"
      by (auto simp: null_array_def ht_insert_def sint_fits_int64 split: option.splits)
  qed
  also have "fold (\<lambda>i acc. acc @ (case cells ! i of Some v \<Rightarrow> [(sint (hash v), i)] | None \<Rightarrow> []))
               [0..<length cells] []
             = concat (map (\<lambda>i. case cells ! i of Some v \<Rightarrow> [(sint (hash v), i)] | None \<Rightarrow> [])
                             [0..<length cells])"
    by (simp add: fold_append_acc)
  also have "\<dots> = map (\<lambda>(i, v). (sint (hash v), i)) (valid_rows cells)"
    by (simp add: valid_rows_def map_concat comp_def option.case_distrib cong: option.case_cong)
  finally show ?thesis .
qed

lemma rows_of_valid_rows_aux:
  "map snd (filter (\<lambda>e. fst e = k)
     (map (\<lambda>(i, v). (key v, i))
        (concat (map (\<lambda>i. case cells ! i of Some v \<Rightarrow> [(i, v)] | None \<Rightarrow> []) xs))))
   = filter (\<lambda>l. case cells ! l of Some a \<Rightarrow> key a = k | None \<Rightarrow> False) xs"
  by (induction xs) (auto split: option.splits)

lemma rows_of_valid_rows:
  "rows_of (map (\<lambda>(i, v). (key v, i)) (valid_rows cells)) k
   = filter (\<lambda>l. case cells ! l of Some a \<Rightarrow> key a = k | None \<Rightarrow> False) [0..<length cells]"
  unfolding rows_of_def valid_rows_def by (rule rows_of_valid_rows_aux)

lemma zip_rows_replicate:
  "zip (concat (map F xs)) (concat (map (\<lambda>r. replicate (length (F r)) r) xs))
   = concat (map (\<lambda>r. map (\<lambda>l. (l, r)) (F r)) xs)"
  by (induction xs) (simp_all add: zip_replicate2)

lemma probe_hashed_eq:
  "probe_hashed hash ht cells =
     Inr (concat (map (\<lambda>r. case cells ! r of Some v \<Rightarrow> rows_of ht (sint (hash v)) | None \<Rightarrow> [])
                  [0..<length cells]),
          concat (map (\<lambda>r. replicate
                    (length (case cells ! r of Some v \<Rightarrow> rows_of ht (sint (hash v)) | None \<Rightarrow> [])) r)
                  [0..<length cells]))"
proof -
  let ?F = "\<lambda>r. case cells ! r of Some v \<Rightarrow> rows_of ht (sint (hash v)) | None \<Rightarrow> []"
  have "probe_hashed hash ht cells =
        Inr (fold (\<lambda>r (ls, rs). (ls @ ?F r, rs @ replicate (length (?F r)) r))
               [0..<length cells] ([], []))"
    unfolding probe_hashed_def
  proof (rule fold_err_ok)
    fix x and s :: "nat list \<times> nat list"
    assume "x \<in> set [0..<length cells]"
    then show "(case s of (left_indexes, right_indexes) \<Rightarrow>
                 if null_array cells ! x then
                   (case cells ! x of
                      None \<Rightarrow> Inr (left_indexes, right_indexes)
                    | Some v \<Rightarrow>
                        err_bind (ht_get ht (sint (hash v))) (\<lambda>rows.
                          if rows \<noteq> []
                          then Inr (left_indexes @ rows, right_indexes @ replicate (length rows) x)
                          else Inr (left_indexes, right_indexes)))
                 else Inr (left_indexes, right_indexes))
               = Inr (case s of (ls, rs) \<Rightarrow> (ls @ ?F x, rs @ replicate (length (?F x)) x))"
      by (cases s)
         (auto simp: null_array_def ht_get_def sint_fits_int64 err_bind_def split: option.splits)
  qed
  then show ?thesis by (simp add: fold_append_pair)
qed

lemma concat_valid_rows:
  "concat (map f (map (\<lambda>(i, v). (v, i)) (valid_rows cells)))
   = concat (map (\<lambda>r. case cells ! r of Some v \<Rightarrow> f (v, r) | None \<Rightarrow> [])
               [0..<length cells])"
proof -
  have "concat (map f (map (\<lambda>(i, v). (v, i))
          (concat (map (\<lambda>i. case cells ! i of Some v \<Rightarrow> [(i, v)] | None \<Rightarrow> []) xs))))
        = concat (map (\<lambda>r. case cells ! r of Some v \<Rightarrow> f (v, r) | None \<Rightarrow> []) xs)" for xs
    by (induction xs) (auto split: option.splits)
  then show ?thesis by (simp add: valid_rows_def)
qed

lemma probe_integer_eq:
  assumes "\<forall>v. Some v \<in> set cells \<longrightarrow> fits_int64 v"
  shows "probe_integer ht cells =
     Inr (concat (map (\<lambda>r. case cells ! r of Some v \<Rightarrow> rows_of ht v | None \<Rightarrow> [])
                  [0..<length cells]),
          concat (map (\<lambda>r. replicate
                    (length (case cells ! r of Some v \<Rightarrow> rows_of ht v | None \<Rightarrow> [])) r)
                  [0..<length cells]))"
proof -
  let ?h = "\<lambda>(val, r) (ls, rs). (ls @ rows_of ht val, rs @ replicate (length (rows_of ht val)) r)"
  have "probe_integer ht cells =
        fold (\<lambda>x acc. err_bind acc (\<lambda>(left_indexes, right_indexes).
                err_bind (ht_get ht (snd x)) (\<lambda>rows.
                  if rows \<noteq> []
                  then Inr (left_indexes @ rows,
                            right_indexes @ replicate (length rows) (value_offset_map cells ! fst x))
                  else Inr (left_indexes, right_indexes))))
          (enumerate 0 (non_null_array cells)) (Inr ([], []))"
    by (simp add: probe_integer_def split_def)
  also have "\<dots> = Inr (fold (?h \<circ> (\<lambda>(i, val). (val, value_offset_map cells ! i)))
                          (enumerate 0 (non_null_array cells)) ([], []))"
  proof (rule fold_err_ok)
    fix x and s :: "nat list \<times> nat list"
    assume "x \<in> set (enumerate 0 (non_null_array cells))"
    then have "snd x \<in> set (non_null_array cells)"
      by (rule enumerate_snd_member)
    then have "Some (snd x) \<in> set cells" by (rule non_null_array_member)
    with assms have "fits_int64 (snd x)" by simp
    then have "ht_get ht (snd x) = Inr (rows_of ht (snd x))" by (simp add: ht_get_def)
    then show "(case s of (left_indexes, right_indexes) \<Rightarrow>
                 err_bind (ht_get ht (snd x)) (\<lambda>rows.
                   if rows \<noteq> []
                   then Inr (left_indexes @ rows,
                             right_indexes @ replicate (length rows) (value_offset_map cells ! fst x))
                   else Inr (left_indexes, right_indexes)))
               = Inr ((?h \<circ> (\<lambda>(i, val). (val, value_offset_map cells ! i))) x s)"
      by (cases s; cases x) (simp add: err_bind_Inr)
  qed
  also have "fold (?h \<circ> (\<lambda>(i, val). (val, value_offset_map cells ! i)))
               (enumerate 0 (non_null_array cells)) ([], [])
             = fold ?h (map (\<lambda>(i, v). (v, i)) (valid_rows cells)) ([], [])"
    by (simp add: fold_map [symmetric] enumerated_valid_rows)
  also have "\<dots> = fold (\<lambda>x (ls, rs). (ls @ rows_of ht (fst x),
                         rs @ replicate (length (rows_of ht (fst x))) (snd x)))
                      (map (\<lambda>(i, v). (v, i)) (valid_rows cells)) ([], [])"
    by (rule fold_cong) (auto simp: fun_eq_iff)
  also have "\<dots> = (concat (map (\<lambda>x. rows_of ht (fst x)) (map (\<lambda>(i, v). (v, i)) (valid_rows cells))),
                   concat (map (\<lambda>x. replicate (length (rows_of ht (fst x))) (snd x))
                             (map (\<lambda>(i, v). (v, i)) (valid_rows cells))))"
    by (simp add: fold_append_pair)
  also have "concat (map (\<lambda>x. rows_of ht (fst x)) (map (\<lambda>(i, v). (v, i)) (valid_rows cells)))
             = concat (map (\<lambda>r. case cells ! r of Some v \<Rightarrow> rows_of ht v | None \<Rightarrow> [])
                         [0..<length cells])"
    by (subst concat_valid_rows) (simp cong: option.case_cong)
  also have "concat (map (\<lambda>x. replicate (length (rows_of ht (fst x))) (snd x))
                       (map (\<lambda>(i, v). (v, i)) (valid_rows cells)))
             = concat (map (\<lambda>r. replicate
                    (length (case cells ! r of Some v \<Rightarrow> rows_of ht v | None \<Rightarrow> [])) r)
                  [0..<length cells])"
    unfolding concat_valid_rows
    by (rule arg_cong [where f = concat], rule map_cong) (auto split: option.splits)
  finally show ?thesis .
qed

lemma probe_matching_pairs:
  assumes "ht = map (\<lambda>(i, v). (key v, i)) (valid_rows ls)"
  shows "zip (concat (map (\<lambda>r. case rs ! r of Some v \<Rightarrow> rows_of ht (key v) | None \<Rightarrow> [])
                       [0..<length rs]))
             (concat (map (\<lambda>r. replicate
                       (length (case rs ! r of Some v \<Rightarrow> rows_of ht (key v) | None \<Rightarrow> [])) r)
                       [0..<length rs]))
         = matching_pairs key ls rs"
proof -
  have "(case rs ! r of Some v \<Rightarrow> rows_of ht (key v) | None \<Rightarrow> [])
        = filter (\<lambda>l. case (ls ! l, rs ! r) of (Some a, Some b) \<Rightarrow> key a = key b | _ \<Rightarrow> False)
            [0..<length ls]" for r
    by (cases "rs ! r") (auto simp: assms rows_of_valid_rows intro!: filter_cong split: option.splits)
  then show ?thesis
    by (simp add: zip_rows_replicate matching_pairs_def)
qed

lemma hash_join_integer:
  assumes "\<forall>v. Some v \<in> set ls \<union> set rs \<longrightarrow> fits_int64 v"
  shows "hash_join_single hash (IntegerArray ls) (IntegerArray rs) = Inr (equi_join_pairs ls rs)"
proof -
  have l: "\<forall>v. Some v \<in> set ls \<longrightarrow> fits_int64 v" and r: "\<forall>v. Some v \<in> set rs \<longrightarrow> fits_int64 v"
    using assms by auto
  show ?thesis
    unfolding hash_join_single_def preprocess_left_def inner_join_with_preprocessed_left_side_def
      equi_join_pairs_def
    using probe_matching_pairs [where key = "\<lambda>v. v" and ls = ls and rs = rs, OF refl]
    by (simp add: build_integer_eq [OF l] probe_integer_eq [OF r] err_bind_def)
qed

lemma fold_err_Inl: "fold (\<lambda>x acc. err_bind acc (step x)) xs (Inl e) = Inl e"
  by (induction xs) (simp_all add: err_bind_Inl)

lemma fold_err_fail:
  assumes "x \<in> set xs"
    and "\<And>s. step x s = Inl e0"
    and "\<And>y s e. y \<in> set xs \<Longrightarrow> step y s = Inl e \<Longrightarrow> e = e0"
  shows "fold (\<lambda>x acc. err_bind acc (step x)) xs (Inr s0) = Inl e0"
  using assms(1,3)
proof (induction xs arbitrary: s0)
  case Nil
  then show ?case by simp
next
  case (Cons y ys)
  show ?case
  proof (cases "step y s0")
    case (Inl e)
    then have "e = e0" using Cons.prems(2) [of y s0 e] by simp
    with Inl show ?thesis by (simp add: err_bind_Inr fold_err_Inl)
  next
    case (Inr s1)
    with assms(2) [of s0] have "y \<noteq> x" by auto
    with Cons.prems(1) have "x \<in> set ys" by simp
    moreover have "e = e0" if "z \<in> set ys" "step z s = Inl e" for z s e
      using Cons.prems(2) [of z s e] that by simp
    ultimately have "fold (\<lambda>x acc. err_bind acc (step x)) ys (Inr s1) = Inl e0"
      by (rule Cons.IH)
    with Inr show ?thesis by (simp add: err_bind_Inr)
  qed
qed

lemma enumerated_member:
  assumes "Some v \<in> set cells"
  obtains x where "x \<in> set (enumerate 0 (non_null_array cells))" and "snd x = v"
proof -
  have "v \<in> set (non_null_array cells)"
    using assms by (force simp: non_null_array_def)
  then have "v \<in> snd ` set (enumerate 0 (non_null_array cells))"
    by (simp only: snd_set_enumerate)
  then show ?thesis using that by auto
qed

lemma build_integer_overflow:
  assumes "Some v \<in> set cells" and "\<not> fits_int64 v"
  shows "build_integer cells = Inl OverflowError"
proof -
  from assms(1) obtain x where x: "x \<in> set (enumerate 0 (non_null_array cells))" "snd x = v"
    by (rule enumerated_member)
  have "fold (\<lambda>x acc. err_bind acc (\<lambda>ht. ht_insert ht (snd x) (value_offset_map cells ! fst x)))
          (enumerate 0 (non_null_array cells)) (Inr []) = Inl OverflowError"
  proof (rule fold_err_fail [OF x(1)])
    show "ht_insert s (snd x) (value_offset_map cells ! fst x) = Inl OverflowError" for s
      using assms(2) x(2) by (simp add: ht_insert_def)
    show "e = OverflowError"
      if "ht_insert s (snd y) (value_offset_map cells ! fst y) = Inl e" for y s e
      using that by (simp add: ht_insert_def split: if_splits)
  qed
  then show ?thesis by (simp add: build_integer_def split_def)
qed

lemma probe_integer_overflow:
  assumes "Some v \<in> set cells" and "\<not> fits_int64 v"
  shows "probe_integer ht cells = Inl OverflowError"
proof -
  from assms(1) obtain x where x: "x \<in> set (enumerate 0 (non_null_array cells))" "snd x = v"
    by (rule enumerated_member)
  have "fold (\<lambda>x acc. err_bind acc (\<lambda>(left_indexes, right_indexes).
                err_bind (ht_get ht (snd x)) (\<lambda>rows.
                  if rows \<noteq> []
                  then Inr (left_indexes @ rows,
                            right_indexes @ replicate (length rows) (value_offset_map cells ! fst x))
                  else Inr (left_indexes, right_indexes))))
          (enumerate 0 (non_null_array cells)) (Inr ([], [])) = Inl OverflowError"
  proof (rule fold_err_fail [OF x(1)])
    show "(case s of (left_indexes, right_indexes) \<Rightarrow>
             err_bind (ht_get ht (snd x)) (\<lambda>rows.
               if rows \<noteq> []
               then Inr (left_indexes @ rows,
                         right_indexes @ replicate (length rows) (value_offset_map cells ! fst x))
               else Inr (left_indexes, right_indexes))) = Inl OverflowError"
      for s :: "nat list \<times> nat list"
      using assms(2) x(2) by (cases s) (simp add: ht_get_def err_bind_Inl)
    show "e = OverflowError"
      if "(case s of (left_indexes, right_indexes) \<Rightarrow>
             err_bind (ht_get ht (snd y)) (\<lambda>rows.
               if rows \<noteq> []
               then Inr (left_indexes @ rows,
                         right_indexes @ replicate (length rows) (value_offset_map cells ! fst y))
               else Inr (left_indexes, right_indexes))) = Inl e"
      for y and s :: "nat list \<times> nat list" and e
      using that
      by (cases s; cases "fits_int64 (snd y)")
         (simp_all add: ht_get_def err_bind_Inl err_bind_Inr split: if_splits)
  qed
  then show ?thesis by (simp add: probe_integer_def split_def)
qed

lemma hash_join_integer_overflow:
  assumes "Some v \<in> set ls \<union> set rs" and "\<not> fits_int64 v"
  shows "hash_join_single hash (IntegerArray ls) (IntegerArray rs) = Inl OverflowError"
proof (cases "\<forall>u. Some u \<in> set ls \<longrightarrow> fits_int64 u")
  case True
  with assms have "Some v \<in> set rs" by auto
  then have "probe_integer ht rs = Inl OverflowError" for ht
    using assms(2) by (rule probe_integer_overflow)
  then show ?thesis
    by (simp add: hash_join_single_def preprocess_left_def
        inner_join_with_preprocessed_left_side_def build_integer_eq [OF True]
        err_bind_Inr err_bind_Inl)
next
  case False
  then obtain u where "Some u \<in> set ls" "\<not> fits_int64 u" by auto
  then have "build_integer ls = Inl OverflowError" by (rule build_integer_overflow)
  then show ?thesis
    by (simp add: hash_join_single_def preprocess_left_def err_bind_Inl)
qed

lemma sint_eq_iff: "sint (a :: 64 word) = sint b \<longleftrightarrow> a = b"
  by (auto intro: signed_word_eqI)

lemma matching_pairs_sint:
  "matching_pairs (\<lambda>v. sint (hash v :: 64 word)) ls rs = matching_pairs hash ls rs"
  by (simp add: matching_pairs_def sint_eq_iff cong: option.case_cong)

lemma hash_join_hashed:
  assumes "same_type_cells left_key right_key = Some (ls, rs)"
  shows "hash_join_single hash left_key right_key = Inr (matching_pairs hash ls rs)"
proof -
  have "err_bind (build_hashed hash ls) (\<lambda>ht.
          err_bind (probe_hashed hash ht rs)
            (\<lambda>(left_indexes, right_indexes). Inr (zip left_indexes right_indexes)))
        = (Inr (matching_pairs hash ls rs) :: error + (nat \<times> nat) list)"
    using probe_matching_pairs [where key = "\<lambda>v. sint (hash v)" and ls = ls and rs = rs, OF refl]
    by (simp add: build_hashed_eq probe_hashed_eq matching_pairs_sint err_bind_def)
  with assms show ?thesis
    by (cases left_key; cases right_key)
       (simp_all add: hash_join_single_def preprocess_left_def
          inner_join_with_preprocessed_left_side_def)
qed

lemma matching_pairs_inj:
  assumes "inj_on key {v. Some v \<in> set ls \<union> set rs}"
  shows "matching_pairs key ls rs = equi_join_pairs ls rs"
proof -
  have "(case (ls ! l, rs ! r) of (Some a, Some b) \<Rightarrow> key a = key b | _ \<Rightarrow> False)
        = (case (ls ! l, rs ! r) of (Some a, Some b) \<Rightarrow> a = b | _ \<Rightarrow> False)"
    if "l < length ls" "r < length rs" for l r
  proof (cases "ls ! l"; cases "rs ! r")
    fix a b assume ab: "ls ! l = Some a" "rs ! r = Some b"
    with that have "Some a \<in> set ls" "Some b \<in> set rs" by (metis nth_mem)+
    then have "key a = key b \<longleftrightarrow> a = b" using assms by (auto simp: inj_on_def)
    with ab show ?thesis by simp
  qed simp_all
  then show ?thesis
    unfolding matching_pairs_def equi_join_pairs_def
    by (intro arg_cong [where f = concat] map_cong filter_cong refl) auto
qed

lemma equi_join_pairs_iff:
  "(l, r) \<in> set (equi_join_pairs ls rs) \<longleftrightarrow>
     l < length ls \<and> r < length rs \<and> (\<exists>v. ls ! l = Some v \<and> rs ! r = Some v)"
proof -
  have "(l, r) \<in> set (equi_join_pairs ls rs) \<longleftrightarrow>
        r < length rs \<and> l < length ls
        \<and> (case (ls ! l, rs ! r) of (Some a, Some b) \<Rightarrow> a = b | _ \<Rightarrow> False)"
    unfolding equi_join_pairs_def matching_pairs_def by auto
  also have "\<dots> \<longleftrightarrow> l < length ls \<and> r < length rs \<and> (\<exists>v. ls ! l = Some v \<and> rs ! r = Some v)"
    by (auto split: option.splits)
  finally show ?thesis .
qed

lemma distinct_pairs:
  "distinct ys \<Longrightarrow> distinct xs \<Longrightarrow>
   distinct (concat (map (\<lambda>r. map (\<lambda>l. (l, r)) (filter (P r) xs)) ys))"
  by (induction ys) (auto simp: distinct_map inj_on_def)

lemma distinct_equi_join_pairs: "distinct (equi_join_pairs ls rs)"
  unfolding equi_join_pairs_def matching_pairs_def
  by (rule distinct_pairs) simp_all

text \<open>
  Claim C1, as amended. On an integer key whose values all fit a signed integer of 64
  bits, the single-key hash join emits exactly the pairs \<open>(left_row, right_row)\<close>
  whose keys are equal and not null, each once, in the order of the right rows; when a
  key value of either side does not fit (a value of an unsigned 64-bit column from
  \<open>2^63\<close>), the join raises \<^verbatim>\<open>OverflowError\<close>. On a key of a fixed-size binary,
  floating, binary or string type (left and right of the same type) it emits the pairs
  of non-null rows whose keys have equal hashes; when the hash is injective on the key
  values of the two columns, these are exactly the pairs with equal keys. Rows with a
  null key never appear.
\<close>

theorem hash_join_single_spec:
  "((\<forall>v. Some v \<in> set ls \<union> set rs \<longrightarrow> fits_int64 v) \<longrightarrow>
      hash_join_single hash (IntegerArray ls) (IntegerArray rs) = Inr (equi_join_pairs ls rs))
   \<and> (Some k \<in> set lo \<union> set ro \<and> \<not> fits_int64 k \<longrightarrow>
        hash_join_single hash (IntegerArray lo) (IntegerArray ro) = Inl OverflowError)
   \<and> (same_type_cells left_key right_key = Some (bl, br) \<longrightarrow>
        hash_join_single hash left_key right_key = Inr (matching_pairs hash bl br)
        \<and> (inj_on hash {v. Some v \<in> set bl \<union> set br} \<longrightarrow>
             hash_join_single hash left_key right_key = Inr (equi_join_pairs bl br)))"
proof (intro conjI impI)
  assume "\<forall>v. Some v \<in> set ls \<union> set rs \<longrightarrow> fits_int64 v"
  then show "hash_join_single hash (IntegerArray ls) (IntegerArray rs) = Inr (equi_join_pairs ls rs)"
    by (rule hash_join_integer)
next
  assume "Some k \<in> set lo \<union> set ro \<and> \<not> fits_int64 k"
  then show "hash_join_single hash (IntegerArray lo) (IntegerArray ro) = Inl OverflowError"
    using hash_join_integer_overflow [of k lo ro hash] by simp
next
  assume s: "same_type_cells left_key right_key = Some (bl, br)"
  then show h: "hash_join_single hash left_key right_key = Inr (matching_pairs hash bl br)"
    by (rule hash_join_hashed)
  assume "inj_on hash {v. Some v \<in> set bl \<union> set br}"
  then show "hash_join_single hash left_key right_key = Inr (equi_join_pairs bl br)"
    by (simp add: hash_join_hashed [OF s] matching_pairs_inj)
qed

lemma example_hash_inj: "inj_on example_hash {''a'', ''b''}"
  by (simp add: example_hash_def)

theorem hash_join_single_spec_witness:
  "hash_join_single example_hash (IntegerArray [Some 7, None, Some 3, Some 7])
       (IntegerArray [Some 3, None, Some 7]) = Inr [(2, 0), (0, 2), (3, 2)]
   \<and> hash_join_single example_hash (IntegerArray [Some 1, Some (2 ^ 63)])
       (IntegerArray [Some 1]) = Inl OverflowError
   \<and> hash_join_single example_hash (StringArray [Some ''a'', None, Some ''b''])
       (StringArray [Some ''b'', None, Some ''a'', Some ''b''])
     = Inr [(2, 0), (0, 2), (2, 3)]"
proof -
  have f: "\<forall>v. Some v \<in> set [Some 7, None, Some 3, Some 7] \<union> set [Some 3, None, Some 7]
             \<longrightarrow> fits_int64 v"
    by (auto simp: fits_int64_def)
  have o: "Some (2 ^ 63) \<in> set [Some 1, Some (2 ^ 63 :: int)] \<union> set [Some 1]
           \<and> \<not> fits_int64 (2 ^ 63)"
    by (simp add: fits_int64_def)
  have s: "same_type_cells (StringArray [Some ''a'', None, Some ''b''])
             (StringArray [Some ''b'', None, Some ''a'', Some ''b''])
           = Some ([Some ''a'', None, Some ''b''], [Some ''b'', None, Some ''a'', Some ''b''])"
    by simp
  have "{v. Some v \<in> set [Some ''a'', None, Some ''b''] \<union> set [Some ''b'', None, Some ''a'', Some ''b'']}
        = {''a'', ''b''}"
    by auto
  then have i: "inj_on example_hash
      {v. Some v \<in> set [Some ''a'', None, Some ''b''] \<union> set [Some ''b'', None, Some ''a'', Some ''b'']}"
    using example_hash_inj by simp
  have e1: "equi_join_pairs [Some (7::int), None, Some 3, Some 7] [Some 3, None, Some 7]
            = [(2, 0), (0, 2), (3, 2)]"
    by (simp add: equi_join_pairs_def matching_pairs_def upt_rec)
  have e2: "equi_join_pairs [Some ''a'', None, Some ''b''] [Some ''b'', None, Some ''a'', Some ''b'']
            = [(2, 0), (0, 2), (2, 3)]"
    by (simp add: equi_join_pairs_def matching_pairs_def upt_rec)
  note t = hash_join_single_spec [of "[Some 7, None, Some 3, Some 7]" "[Some 3, None, Some 7]"
      example_hash "2 ^ 63" "[Some 1, Some (2 ^ 63)]" "[Some 1]"
      "StringArray [Some ''a'', None, Some ''b'']"
      "StringArray [Some ''b'', None, Some ''a'', Some ''b'']"
      "[Some ''a'', None, Some ''b'']" "[Some ''b'', None, Some ''a'', Some ''b'']"]
  from t f have 1: "hash_join_single example_hash (IntegerArray [Some 7, None, Some 3, Some 7])
       (IntegerArray [Some 3, None, Some 7])
       = Inr (equi_join_pairs [Some (7::int), None, Some 3, Some 7] [Some 3, None, Some 7])"
    by blast
  from t o have 2: "hash_join_single example_hash (IntegerArray [Some 1, Some (2 ^ 63)])
       (IntegerArray [Some 1]) = Inl OverflowError"
    by blast
  from t s i have 3: "hash_join_single example_hash (StringArray [Some ''a'', None, Some ''b''])
       (StringArray [Some ''b'', None, Some ''a'', Some ''b''])
       = Inr (equi_join_pairs [Some ''a'', None, Some ''b''] [Some ''b'', None, Some ''a'', Some ''b''])"
    by blast
  show ?thesis unfolding 1 2 3 e1 e2 by simp
qed

text \<open>
  Claim C1 as stated fails on an integer key and on the hashed key types. A key of an
  unsigned 64-bit column that is \<open>2^63\<close> on both sides is an equal, non-null pair, and
  the join raises instead of emitting it. And whatever the hash into 64 bits, two
  different texts collide under it, and the join of the one with the other emits their
  pair, which the join on equal keys does not have.
\<close>

theorem hash_join_collision_counterexample:
  "(\<forall>hash :: string \<Rightarrow> 64 word.
      hash_join_single hash (IntegerArray [Some (2 ^ 63)]) (IntegerArray [Some (2 ^ 63)])
        = Inl OverflowError
      \<and> (\<exists>a b. a \<noteq> b
        \<and> hash_join_single hash (StringArray [Some a]) (StringArray [Some b]) = Inr [(0, 0)]
        \<and> equi_join_pairs [Some a] [Some b] = []))
   \<and> equi_join_pairs [Some (2 ^ 63 :: int)] [Some (2 ^ 63)] = [(0, 0)]"
proof (intro conjI allI)
  show "equi_join_pairs [Some (2 ^ 63 :: int)] [Some (2 ^ 63)] = [(0, 0)]"
    by (simp add: equi_join_pairs_def matching_pairs_def)
  fix hash :: "string \<Rightarrow> 64 word"
  have "\<not> fits_int64 (2 ^ 63)" by (simp add: fits_int64_def)
  moreover have "Some (2 ^ 63) \<in> set [Some (2 ^ 63 :: int)] \<union> set [Some (2 ^ 63)]" by simp
  ultimately show "hash_join_single hash (IntegerArray [Some (2 ^ 63)]) (IntegerArray [Some (2 ^ 63)])
        = Inl OverflowError"
    by (rule hash_join_integer_overflow [rotated])
  have "\<not> inj hash"
  proof
    assume "inj hash"
    moreover have "finite (range hash)" by (rule finite_subset [OF subset_UNIV]) simp
    ultimately have "finite (UNIV :: string set)" by (rule finite_imageD [rotated])
    then show False using infinite_UNIV_listI by blast
  qed
  then obtain a b where ab: "a \<noteq> b" "hash a = hash b" by (auto simp: inj_on_def)
  have "hash_join_single hash (StringArray [Some a]) (StringArray [Some b]) = Inr [(0, 0)]"
    using ab by (simp add: hash_join_hashed [of _ _ "[Some a]" "[Some b]"] matching_pairs_def)
  moreover have "equi_join_pairs [Some a] [Some b] = []"
    using ab by (simp add: equi_join_pairs_def matching_pairs_def)
  ultimately show "\<exists>a b. a \<noteq> b
        \<and> hash_join_single hash (StringArray [Some a]) (StringArray [Some b]) = Inr [(0, 0)]
        \<and> equi_join_pairs [Some a] [Some b] = []"
    using ab(1) by blast
qed

lemma matches_Schema [simp]: "matches h v (Schema s) = (find_column h s v \<noteq> None)"
  by (simp add: matches_def)







lemma locate_loop_result:
  "locate_loop h v ds acc = Inr (Some c, Some s) \<Longrightarrow>
     acc = (Some c, Some s) \<or> (Schema s \<in> set ds \<and> find_column h s v = Some c)"
proof (induction h v ds acc rule: locate_loop.induct)
  case (3 h v s' rest column found_source_relation)
  then show ?case
    by (cases "find_column h s' v") (auto split: if_splits)
qed simp_all

lemma find_column_member:
  "find_column h s v = Some c \<Longrightarrow> c \<in> set (columns (sch_h h ! s))"
  by (auto simp: find_column_def find_Some_iff split: option.splits)

text \<open>
  Claim C10, as amended: for every identifier node whose \<^verbatim>\<open>current_name\<close> does not
  start with \<open>@\<close>, that resolves to a column and carries a non-empty alias not among
  the column's \<^verbatim>\<open>all_names\<close>, \<^verbatim>\<open>locate_identifier\<close> appends the alias to the aliases
  of the resolved column object, a column of a candidate schema of the environment
  (which may be \<open>$derived\<close>), and binds the node to that object; every other
  field of the column, every other column object, every schema object and the context
  are left as they were.
\<close>

theorem locate_identifier_appends_alias:
  assumes "locate_identifier_in_loaded_schemas h (source_column node)
             (candidate_schemas node context) = Inr (Some c, Some s)"
    and "is_variable_name (current_name node) = Inr False"
    and "alias_n node = Some al" and "al \<noteq> []" and "al \<notin> set (all_names (col_h h ! c))"
    and "c < length (col_h h)"
  shows "\<exists>node' h'. locate_identifier B h node context = Inr (node', context, h')
      \<and> schema_column node' = Some c
      \<and> c \<in> set (columns (sch_h h ! s))
      \<and> (\<exists>k. (k, Schema s) \<in> set (schemas context))
      \<and> col_h h' ! c = (col_h h ! c)\<lparr>aliases := aliases (col_h h ! c) @ [al]\<rparr>
      \<and> length (col_h h') = length (col_h h)
      \<and> (\<forall>a. a \<noteq> c \<longrightarrow> col_h h' ! a = col_h h ! a)
      \<and> sch_h h' = sch_h h"
proof -
  from assms(1) have m: "Schema s \<in> set (map snd (candidate_schemas node context))"
      and f: "find_column h s (source_column node) = Some c"
    unfolding locate_identifier_in_loaded_schemas_def
    by (auto dest!: locate_loop_result)
  from m have ne: "candidate_schemas node context \<noteq> []" by auto
  from m obtain k where "(k, Schema s) \<in> set (candidate_schemas node context)" by auto
  then have k: "(k, Schema s) \<in> set (schemas context)"
    by (auto simp: candidate_schemas_def split: option.splits if_splits)
  let ?h' = "h\<lparr>col_h := (col_h h)[c := (col_h h ! c)\<lparr>aliases := aliases (col_h h ! c) @ [al]\<rparr>]\<rparr>"
  have "\<exists>node'. locate_identifier B h node context = Inr (node', context, ?h')
          \<and> schema_column node' = Some c"
    using assms ne
    by (auto simp: locate_identifier_def err_bind_def Let_def split: list.splits)
  then obtain node' where n: "locate_identifier B h node context = Inr (node', context, ?h')"
      "schema_column node' = Some c"
    by blast
  have 1: "col_h ?h' ! c = (col_h h ! c)\<lparr>aliases := aliases (col_h h ! c) @ [al]\<rparr>"
    using assms(6) by simp
  have 2: "\<forall>a. a \<noteq> c \<longrightarrow> col_h ?h' ! a = col_h h ! a" by simp
  have 3: "length (col_h ?h') = length (col_h h)" "sch_h ?h' = sch_h h" by simp_all
  show ?thesis
    using n 1 2 3 find_column_member [OF f] k by blast
qed

lemma example_find_column:
  "find_column example_heap 0 (Some ''x'') = None"
  "find_column example_heap (Suc 0) (Some ''x'') = Some 2"
  "find_column example_heap 2 (Some ''x'') = Some 3"
  "find_column example_heap 0 (Some ''@v'') = Some 1"
  "find_column example_heap (Suc 0) (Some ''@v'') = None"
  "find_column example_heap 2 (Some ''@v'') = None"
  "find_column example_heap 0 (Some ''d'') = Some 0"
  "find_column example_heap (Suc 0) (Some ''d'') = None"
  "find_column example_heap 2 (Some ''d'') = None"
  by (simp_all add: find_column_def example_heap_def example_column_def example_variable_def
      all_names_def)

theorem locate_identifier_appends_alias_witness:
  "\<exists>node' h'. locate_identifier example_binder_env example_heap
        (example_reference (Some ''t'') ''x'' (Some ''y'')) example_context
        = Inr (node', example_context, h')
      \<and> schema_column node' = Some 2
      \<and> col_h h' ! 2 = (example_column ''x'')\<lparr>aliases := [''y'']\<rparr>
      \<and> col_h h' ! 3 = col_h example_heap ! 3
      \<and> sch_h h' = sch_h example_heap"
proof -
  let ?n = "example_reference (Some ''t'') ''x'' (Some ''y'')"
  have c: "candidate_schemas ?n example_context = [(''t'', Schema (Suc 0))]"
    by (simp add: candidate_schemas_def example_reference_def example_context_def startswith_def)
  have 1: "locate_identifier_in_loaded_schemas example_heap (source_column ?n)
             (candidate_schemas ?n example_context) = Inr (Some 2, Some (Suc 0))"
    unfolding c
    by (simp add: locate_identifier_in_loaded_schemas_def example_reference_def example_find_column)
  have 2: "is_variable_name (current_name ?n) = Inr False"
    by (simp add: is_variable_name_def example_reference_def)
  have 3: "alias_n ?n = Some ''y''" by (simp add: example_reference_def)
  have 4: "''y'' \<notin> set (all_names (col_h example_heap ! 2))"
    by (simp add: all_names_def example_heap_def example_column_def)
  have 5: "2 < length (col_h example_heap)" by (simp add: example_heap_def)
  have 6: "col_h example_heap ! 2 = example_column ''x''" by (simp add: example_heap_def)
  have 7: "aliases (example_column ''x'') = []" by (simp add: example_column_def)
  from locate_identifier_appends_alias [OF 1 2 3 _ 4 5, of example_binder_env]
  show ?thesis unfolding 6 7 by auto
qed

text \<open>
  Claim C10 as stated fails twice. An identifier whose name starts with \<open>@\<close>, resolving
  to the constant column of a session variable and carrying a new alias, gets a fresh
  LITERAL node with the type and value of the column and no alias is appended: the store
  is unchanged. And an identifier without a source can resolve to a column of
  \<open>$derived\<close>, which then is the column that is mutated.
\<close>

theorem locate_identifier_alias_counterexample:
  "locate_identifier example_binder_env example_heap
      (example_reference None ''@v'' (Some ''y'')) example_context
     = Inr (set_value (PInt 7) (set_type (Some INTEGER)
              (set_schema_column (Some 1) (new_node LITERAL))),
            example_context, example_heap)
   \<and> (\<exists>node'. locate_identifier example_binder_env example_heap
          (example_reference None ''d'' (Some ''y'')) example_context
        = Inr (node', example_context,
               example_heap\<lparr>col_h := (col_h example_heap)
                  [0 := (example_column ''d'')\<lparr>aliases := [''y'']\<rparr>]\<rparr>))
   \<and> schema_name (sch_h example_heap ! 0) = ''$derived''
   \<and> columns (sch_h example_heap ! 0) = [0, 1]"
proof (intro conjI)
  have lit: "literal_of_column example_heap (Suc 0)
      = Inr (set_value (PInt 7) (set_type (Some INTEGER)
              (set_schema_column (Some 1) (new_node LITERAL))))"
    by (simp add: literal_of_column_def example_heap_def example_variable_def)
  show "locate_identifier example_binder_env example_heap
      (example_reference None ''@v'' (Some ''y'')) example_context
     = Inr (set_value (PInt 7) (set_type (Some INTEGER)
              (set_schema_column (Some 1) (new_node LITERAL))),
            example_context, example_heap)"
    by (simp add: locate_identifier_def candidate_schemas_def example_reference_def
        example_context_def locate_identifier_in_loaded_schemas_def example_find_column
        err_bind_def is_variable_name_def lit)
  have "col_h example_heap ! 0 = example_column ''d''" by (simp add: example_heap_def)
  then show "\<exists>node'. locate_identifier example_binder_env example_heap
          (example_reference None ''d'' (Some ''y'')) example_context
        = Inr (node', example_context,
               example_heap\<lparr>col_h := (col_h example_heap)
                  [0 := (example_column ''d'')\<lparr>aliases := [''y'']\<rparr>]\<rparr>)"
    by (simp add: locate_identifier_def candidate_schemas_def example_reference_def
        example_context_def locate_identifier_in_loaded_schemas_def example_find_column
        err_bind_def is_variable_name_def all_names_def example_column_def Let_def)
qed (simp_all add: example_heap_def)

lemma extends_refl [simp]: "extends h h"
  by (simp add: extends_def)

lemma take_prefix_trans:
  assumes "length xs \<le> length ys" "take (length xs) ys = xs"
    and "length ys \<le> length zs" "take (length ys) zs = ys"
  shows "take (length xs) zs = xs"
proof -
  have "take (length xs) zs = take (length xs) (take (length ys) zs)"
    using assms(1) by (simp add: min_def)
  then show ?thesis using assms by simp
qed

lemma extends_trans: "extends h1 h2 \<Longrightarrow> extends h2 h3 \<Longrightarrow> extends h1 h3"
  unfolding extends_def by (auto intro: take_prefix_trans)

lemma extends_deepcopy_schema: "deepcopy_schema h s = (s', h') \<Longrightarrow> extends h h'"
  by (auto simp: deepcopy_schema_def extends_def Let_def)

lemma extends_deepcopy_value: "deepcopy_value h v = (v', h') \<Longrightarrow> extends h h'"
  by (cases v) (auto simp: deepcopy_value_def split: prod.splits dest: extends_deepcopy_schema)

lemma extends_schema_add: "schema_add h s1 s2 = (s, h') \<Longrightarrow> extends h h'"
  by (auto simp: schema_add_def extends_def)

lemma fresh_deepcopy_value:
  "deepcopy_value h v = (v', h') \<Longrightarrow> extends h0 h \<Longrightarrow> fresh_value h0 v'"
  by (cases v) (auto simp: deepcopy_value_def deepcopy_schema_def fresh_value_def extends_def
      Let_def split: prod.splits)

lemma fresh_schema_add:
  "schema_add h s1 s2 = (s, h') \<Longrightarrow> extends h0 h \<Longrightarrow> fresh_value h0 (Schema s)"
  by (auto simp: schema_add_def fresh_value_def extends_def)

lemma merge_items_frame:
  assumes "merge_items h merged_dict items = Inr (m, h')"
    and "extends h0 h" and "\<forall>v \<in> snd ` set merged_dict. fresh_value h0 v"
  shows "extends h0 h' \<and> (\<forall>v \<in> snd ` set m. fresh_value h0 v)"
  using assms
proof (induction h merged_dict items rule: merge_items.induct)
  case (1 h merged_dict)
  then show ?case by simp
next
  case (2 h merged_dict key v items)
  show ?case
  proof (cases "map_of merged_dict key")
    case None
    obtain v' h1 where d: "deepcopy_value h v = (v', h1)" by (cases "deepcopy_value h v")
    from d "2.prems"(2) have e: "extends h0 h1"
      by (blast intro: extends_trans extends_deepcopy_value)
    from d "2.prems"(2) have f: "fresh_value h0 v'" by (rule fresh_deepcopy_value)
    from "2.prems"(1) None d
    have mi: "merge_items h1 (merged_dict @ [(key, v')]) items = Inr (m, h')" by simp
    have fr: "\<forall>x \<in> snd ` set (merged_dict @ [(key, v')]). fresh_value h0 x"
      using f "2.prems"(3) by auto
    show ?thesis by (rule "2.IH"(1) [OF None d [symmetric] mi e fr])
  next
    case (Some existing)
    with "2.prems"(1) obtain s1 s2 where v: "v = Schema s2" and ex: "existing = Schema s1"
      by (cases v; cases existing) auto
    obtain s h1 where a: "schema_add h s1 s2 = (s, h1)" by (cases "schema_add h s1 s2")
    from a "2.prems"(2) have e: "extends h0 h1"
      by (blast intro: extends_trans extends_schema_add)
    from a "2.prems"(2) have f: "fresh_value h0 (Schema s)" by (rule fresh_schema_add)
    from "2.prems"(1) Some v ex a
    have mi: "merge_items h1 (dict_update key (Schema s) merged_dict) items = Inr (m, h')" by simp
    have fr: "\<forall>x \<in> snd ` set (dict_update key (Schema s) merged_dict). fresh_value h0 x"
      using f "2.prems"(3) by (auto simp: dict_update_def split: if_splits)
    show ?thesis by (rule "2.IH"(2) [OF Some v ex a [symmetric] mi e fr])
  qed
qed

lemma merge_dicts_frame:
  assumes "merge_dicts h merged_dict dicts = Inr (m, h')"
    and "extends h0 h" and "\<forall>v \<in> snd ` set merged_dict. fresh_value h0 v"
  shows "extends h0 h' \<and> (\<forall>v \<in> snd ` set m. fresh_value h0 v)"
  using assms
proof (induction h merged_dict dicts rule: merge_dicts.induct)
  case (3 h merged_dict dic rest)
  from "3.prems"(1) obtain m1 h1 where i: "merge_items h merged_dict dic = Inr (m1, h1)"
      and r: "merge_dicts h1 m1 rest = Inr (m, h')"
    by (auto split: sum.splits)
  from merge_items_frame [OF i "3.prems"(2,3)]
  have e: "extends h0 h1" and f: "\<forall>v \<in> snd ` set m1. fresh_value h0 v" by auto
  show ?case by (rule "3.IH" [OF i refl r e f])
qed simp_all

lemma index_of_nth: "a \<in> set xs \<Longrightarrow> index_of xs a < length xs \<and> xs ! index_of xs a = a"
  by (induction xs) (auto simp: index_of_def)

lemma deepcopy_schema_contents:
  assumes "deepcopy_schema h s = (s', h')"
  shows "s' = length (sch_h h)"
    and "schema_name (sch_h h' ! s') = schema_name (sch_h h ! s)"
    and "map (\<lambda>a. col_h h' ! a) (columns (sch_h h' ! s'))
         = map (\<lambda>a. col_h h ! a) (columns (sch_h h ! s))"
    and "\<forall>a \<in> set (columns (sch_h h' ! s')). length (col_h h) \<le> a \<and> a < length (col_h h')"
proof -
  let ?olds = "remdups (columns (sch_h h ! s))"
  from assms have s': "s' = length (sch_h h)"
    and h': "h' = h\<lparr>col_h := col_h h @ map (\<lambda>a. col_h h ! a) ?olds,
               sch_h := sch_h h @ [(sch_h h ! s)\<lparr>columns :=
                 map (\<lambda>a. length (col_h h) + index_of ?olds a) (columns (sch_h h ! s))\<rparr>]\<rparr>"
    by (auto simp: deepcopy_schema_def Let_def)
  show "s' = length (sch_h h)" by (rule s')
  show "schema_name (sch_h h' ! s') = schema_name (sch_h h ! s)"
    by (simp add: s' h')
  have idx: "index_of ?olds a < length ?olds \<and> ?olds ! index_of ?olds a = a"
    if "a \<in> set (columns (sch_h h ! s))" for a
    using that by (intro index_of_nth) simp
  show "map (\<lambda>a. col_h h' ! a) (columns (sch_h h' ! s'))
         = map (\<lambda>a. col_h h ! a) (columns (sch_h h ! s))"
    using idx by (simp add: s' h' comp_def nth_append)
  show "\<forall>a \<in> set (columns (sch_h h' ! s')). length (col_h h) \<le> a \<and> a < length (col_h h')"
    using idx by (auto simp: s' h')
qed

lemma union_by_identity_identities:
  "set (map (\<lambda>a. identity_c (col_h h ! a)) (union_by_identity h xs ys))
     = set (map (\<lambda>a. identity_c (col_h h ! a)) xs) \<union> set (map (\<lambda>a. identity_c (col_h h ! a)) ys)"
  by (auto simp: union_by_identity_def)

lemma merge_first_seen:
  "\<exists>h1. merge_schemas h [Dict [(key, Schema s)]] = Inr ([(key, Schema (length (sch_h h)))], h1)
     \<and> schema_name (sch_h h1 ! length (sch_h h)) = schema_name (sch_h h ! s)
     \<and> map (\<lambda>a. col_h h1 ! a) (columns (sch_h h1 ! length (sch_h h)))
         = map (\<lambda>a. col_h h ! a) (columns (sch_h h ! s))
     \<and> (\<forall>a \<in> set (columns (sch_h h1 ! length (sch_h h))). length (col_h h) \<le> a)"
proof -
  obtain s' h1 where d: "deepcopy_schema h s = (s', h1)" by (cases "deepcopy_schema h s")
  note c = deepcopy_schema_contents [OF d]
  have "merge_schemas h [Dict [(key, Schema s)]] = Inr ([(key, Schema (length (sch_h h)))], h1)"
    using d c(1) by (simp add: merge_schemas_def deepcopy_value_def)
  with c show ?thesis by auto
qed

lemma merge_repeated:
  assumes "s2 < length (sch_h h)"
    and "\<forall>a \<in> set (columns (sch_h h ! s2)). a < length (col_h h)"
  shows "\<exists>h2 r. merge_schemas h [Dict [(key, Schema s1)], Dict [(key, Schema s2)]]
            = Inr ([(key, Schema r)], h2)
     \<and> schema_name (sch_h h2 ! r) = schema_name (sch_h h ! s1)
     \<and> set (map (\<lambda>a. identity_c (col_h h2 ! a)) (columns (sch_h h2 ! r)))
         = set (map (\<lambda>a. identity_c (col_h h ! a)) (columns (sch_h h ! s1)))
           \<union> set (map (\<lambda>a. identity_c (col_h h ! a)) (columns (sch_h h ! s2)))"
proof -
  obtain c1 h1 where d: "deepcopy_schema h s1 = (c1, h1)" by (cases "deepcopy_schema h s1")
  note c = deepcopy_schema_contents [OF d]
  have e: "extends h h1" using d by (rule extends_deepcopy_schema)
  obtain r h2 where a: "schema_add h1 c1 s2 = (r, h2)" by (cases "schema_add h1 c1 s2")
  have m: "merge_schemas h [Dict [(key, Schema s1)], Dict [(key, Schema s2)]]
            = Inr ([(key, Schema r)], h2)"
    using d a by (simp add: merge_schemas_def deepcopy_value_def dict_update_def)
  have s2: "sch_h h1 ! s2 = sch_h h ! s2"
    using e assms(1) unfolding extends_def by (metis nth_take)
  have old: "col_h h1 ! x = col_h h ! x" if "x < length (col_h h)" for x
    using e that unfolding extends_def by (metis nth_take)
  from a have r: "r = length (sch_h h1)"
    and h2: "col_h h2 = col_h h1"
      "sch_h h2 ! r = (sch_h h1 ! c1)\<lparr>columns :=
         union_by_identity h1 (columns (sch_h h1 ! c1)) (columns (sch_h h ! s2))\<rparr>"
    by (auto simp: schema_add_def s2)
  have i1: "map (\<lambda>a. identity_c (col_h h1 ! a)) (columns (sch_h h1 ! c1))
            = map (\<lambda>a. identity_c (col_h h ! a)) (columns (sch_h h ! s1))"
  proof -
    have "map identity_c (map (\<lambda>a. col_h h1 ! a) (columns (sch_h h1 ! c1)))
          = map identity_c (map (\<lambda>a. col_h h ! a) (columns (sch_h h ! s1)))"
      by (simp only: c(3))
    then show ?thesis by (simp add: comp_def)
  qed
  have i2: "map (\<lambda>a. identity_c (col_h h1 ! a)) (columns (sch_h h ! s2))
            = map (\<lambda>a. identity_c (col_h h ! a)) (columns (sch_h h ! s2))"
    using assms(2) old by (intro map_cong) auto
  have "schema_name (sch_h h2 ! r) = schema_name (sch_h h ! s1)"
    using h2(2) c(2) by simp
  moreover have "set (map (\<lambda>a. identity_c (col_h h2 ! a)) (columns (sch_h h2 ! r)))
         = set (map (\<lambda>a. identity_c (col_h h ! a)) (columns (sch_h h ! s1)))
           \<union> set (map (\<lambda>a. identity_c (col_h h ! a)) (columns (sch_h h ! s2)))"
  proof -
    have "set (map (\<lambda>a. identity_c (col_h h2 ! a)) (columns (sch_h h2 ! r)))
          = set (map (\<lambda>a. identity_c (col_h h1 ! a))
                  (union_by_identity h1 (columns (sch_h h1 ! c1)) (columns (sch_h h ! s2))))"
      unfolding h2 by simp
    also have "\<dots> = set (map (\<lambda>a. identity_c (col_h h1 ! a)) (columns (sch_h h1 ! c1)))
                     \<union> set (map (\<lambda>a. identity_c (col_h h1 ! a)) (columns (sch_h h ! s2)))"
      by (rule union_by_identity_identities)
    finally show ?thesis by (simp only: i1 i2)
  qed
  ultimately show ?thesis using m by blast
qed

text \<open>
  Claim C9, at the input \<^verbatim>\<open>merge_schemas({"a": 5})\<close>: a value that is not a schema,
  under a key seen for the first time, is copied into the result and no error is raised.
  The same value under a repeated key raises \<^verbatim>\<open>InvalidInternalStateError\<close>: the test
  \<^verbatim>\<open>isinstance(value, RelationSchema)\<close> guards that branch only.
\<close>

theorem merge_schemas_first_seen_unchecked:
  "merge_schemas example_heap [Dict [(''a'', NotSchema (PInt 5))]]
     = Inr ([(''a'', NotSchema (PInt 5))], example_heap)
   \<and> merge_schemas example_heap [Dict [(''a'', Schema 1)], Dict [(''a'', NotSchema (PInt 5))]]
     = Inl InvalidInternalStateError"
  by (simp add: merge_schemas_def deepcopy_value_def split: prod.splits)

lemma example_literal_bound:
  "inner_binder (Suc 0) example_binder_externals example_binder_env example_classes example_heap
      example_unbound_literal example_context
   = Some (Inr (set_query_column (Some ''expr'') (set_schema_column (Some 4) example_unbound_literal),
                example_context,
                \<lparr>col_h = col_h example_heap @
                   [\<lparr>kind = ConstantColumn, name = ''expr'', aliases = [], type_c = INTEGER,
                     identity_c = ''fresh'', value_c = PInt 7, origin = [], binding = None,
                     expression = PNone, nullable = False\<rparr>],
                 sch_h = [\<lparr>schema_name = ''$derived'', columns = [0, 1, 4]\<rparr>,
                          \<lparr>schema_name = ''t'', columns = [2]\<rparr>,
                          \<lparr>schema_name = ''u'', columns = [3]\<rparr>]\<rparr>))"
  by (simp add: example_unbound_literal_def new_node_def example_binder_externals_def
      example_binder_env_def example_classes_def example_heap_def example_context_def
      example_column_def example_variable_def run_bind_def py_or_def alias_list_def
      find_column_def all_names_def traversive_recursive_bind_def bind_this_node_def
      new_column_def append_derived_def err_bind_def Let_def eval_nat_numeral)

text \<open>
  Claim C4: \<^verbatim>\<open>inner_binder\<close> on a node whose \<^verbatim>\<open>schema_column\<close> is set returns the
  node and the context as they are, and no object of the store is touched; this at any
  depth of recursion left but none. So when a binding has returned a node that is
  bound, binding that node again in the context and the store of the result returns
  the same node, context and store.
\<close>

theorem inner_binder_already_bound:
  "(schema_column node \<noteq> None \<longrightarrow>
      inner_binder (Suc depth) E B K h node context = Some (Inr (node, context, h)))
   \<and> (inner_binder d E B K h0 node0 context0 = Some (Inr (node', context', h'))
        \<and> schema_column node' \<noteq> None \<longrightarrow>
      inner_binder (Suc depth) E B K h' node' context' = Some (Inr (node', context', h')))"
  by simp

theorem inner_binder_already_bound_witness:
  "inner_binder (Suc 0) example_binder_externals example_binder_env example_classes example_heap
      example_bound_reference example_context
     = Some (Inr (example_bound_reference, example_context, example_heap))
   \<and> (\<exists>node' context' h'.
        inner_binder (Suc 0) example_binder_externals example_binder_env example_classes
          example_heap example_unbound_literal example_context = Some (Inr (node', context', h'))
        \<and> schema_column node' = Some 4
        \<and> columns (sch_h h' ! 0) = [0, 1, 4]
        \<and> inner_binder (Suc 0) example_binder_externals example_binder_env example_classes
            h' node' context' = Some (Inr (node', context', h')))"
proof -
  let ?n = "set_query_column (Some ''expr'') (set_schema_column (Some 4) example_unbound_literal)"
  let ?h = "\<lparr>col_h = col_h example_heap @
                   [\<lparr>kind = ConstantColumn, name = ''expr'', aliases = [], type_c = INTEGER,
                     identity_c = ''fresh'', value_c = PInt 7, origin = [], binding = None,
                     expression = PNone, nullable = False\<rparr>],
             sch_h = [\<lparr>schema_name = ''$derived'', columns = [0, 1, 4]\<rparr>,
                      \<lparr>schema_name = ''t'', columns = [2]\<rparr>,
                      \<lparr>schema_name = ''u'', columns = [3]\<rparr>]\<rparr>"
  have b: "schema_column example_bound_reference \<noteq> None"
    by (simp add: example_bound_reference_def)
  have 1: "inner_binder (Suc 0) example_binder_externals example_binder_env example_classes
      example_heap example_bound_reference example_context
     = Some (Inr (example_bound_reference, example_context, example_heap))"
    by (rule inner_binder_already_bound [THEN conjunct1, THEN mp, OF b])
  have r: "inner_binder (Suc 0) example_binder_externals example_binder_env example_classes
      example_heap example_unbound_literal example_context = Some (Inr (?n, example_context, ?h))"
    by (rule example_literal_bound)
  have s: "schema_column ?n \<noteq> None" by simp
  have 2: "inner_binder (Suc 0) example_binder_externals example_binder_env example_classes
      ?h ?n example_context = Some (Inr (?n, example_context, ?h))"
    by (rule inner_binder_already_bound [THEN conjunct2, THEN mp, OF conjI, OF r s])
  have "schema_column ?n = Some 4" and "columns (sch_h ?h ! 0) = [0, 1, 4]" by simp_all
  with r 2 have "\<exists>node' context' h'.
        inner_binder (Suc 0) example_binder_externals example_binder_env example_classes
          example_heap example_unbound_literal example_context = Some (Inr (node', context', h'))
        \<and> schema_column node' = Some 4
        \<and> columns (sch_h h' ! 0) = [0, 1, 4]
        \<and> inner_binder (Suc 0) example_binder_externals example_binder_env example_classes
            h' node' context' = Some (Inr (node', context', h'))"
    by blast
  with 1 show ?thesis by (rule conjI)
qed

end
